theory Spec2Isabelle
  imports Main "HOL-Library.AList" "HOL-Library.Sublist"
begin

section \<open>JavaScript values\<close>

text \<open>
  The configuration documents, command parameters and package descriptors of the agent
  are JSON-like JavaScript values. Numbers are modelled as integers, strings as byte
  strings (UTF-8), a plain object as the list of its own properties (a JavaScript object
  holds each key once; \<open>wf_jv\<close> states it), and \<open>undefined\<close> as \<open>None\<close> of an option.
  \<open>JFun\<close> stands for any function value, which is what \<open>has_function\<close> looks for.
  \<open>JProto\<close> is the object \<open>Object.prototype\<close>, which every object made by a literal,
  by \<open>JSON.parse\<close> or by a spread inherits from: a property read that finds no own
  property continues there.
\<close>

datatype jv =
    JNull
  | JBool bool
  | JNum int
  | JStr string
  | JArr "jv list"
  | JObj "(string \<times> jv) list"
  | JFun
  | JProto

type_synonym dict = "(string \<times> jv) list"

fun wf_jv :: "jv \<Rightarrow> bool" where
  "wf_jv (JArr items) = list_all wf_jv items"
| "wf_jv (JObj entries) = (distinct (map fst entries) \<and> list_all (\<lambda>kv. wf_jv (snd kv)) entries)"
| "wf_jv v = True"

definition wf_dict :: "dict \<Rightarrow> bool" where
  "wf_dict d = (distinct (map fst d) \<and> list_all (\<lambda>kv. wf_jv (snd kv)) d)"

text \<open>\<open>typeof value === "object" && value !== null && !Array.isArray(value)\<close>\<close>

fun is_plain_object :: "jv option \<Rightarrow> bool" where
  "is_plain_object (Some (JObj entries)) = True"
| "is_plain_object (Some JProto) = True"
| "is_plain_object v = False"

fun has_function :: "jv \<Rightarrow> bool" where
  "has_function JFun = True"
| "has_function (JArr items) = list_ex has_function items"
| "has_function (JObj entries) = list_ex (\<lambda>kv. has_function (snd kv)) entries"
| "has_function v = False"

subsection \<open>Property reads and assignments\<close>

text \<open>
  The members of \<open>Object.prototype\<close>: eleven functions and the accessor \<open>__proto__\<close>,
  whose getter gives the prototype of the object it is read on and whose setter changes
  that prototype when it is assigned an object or \<open>null\<close>, and does nothing when it is
  assigned any other value.
\<close>

definition OBJECT_PROTOTYPE_FUNCTIONS :: "string list" where
  "OBJECT_PROTOTYPE_FUNCTIONS =
     [''constructor'', ''__defineGetter__'', ''__defineSetter__'', ''hasOwnProperty'',
      ''__lookupGetter__'', ''__lookupSetter__'', ''isPrototypeOf'', ''propertyIsEnumerable'',
      ''toString'', ''valueOf'', ''toLocaleString'']"

definition PROTO :: string where
  "PROTO = ''__proto__''"

text \<open>\<open>cursor[key]\<close> on a cursor that is a plain object.\<close>

fun js_get :: "jv \<Rightarrow> string \<Rightarrow> jv option" where
  "js_get (JObj entries) key =
     (case map_of entries key of
        Some v \<Rightarrow> Some v
      | None \<Rightarrow>
          if key = PROTO then Some JProto
          else if key \<in> set OBJECT_PROTOTYPE_FUNCTIONS then Some JFun
          else None)"
| "js_get JProto key =
     (if key = PROTO then Some JNull
      else if key \<in> set OBJECT_PROTOTYPE_FUNCTIONS then Some JFun
      else None)"
| "js_get v key = None"

fun is_object_or_null :: "jv \<Rightarrow> bool" where
  "is_object_or_null (JBool b) = False"
| "is_object_or_null (JNum n) = False"
| "is_object_or_null (JStr s) = False"
| "is_object_or_null v = True"

text \<open>
  \<open>obj[key] = v\<close> on an object given by its own properties. An assignment keeps the place
  of a key that is there and appends a new one, as \<open>AList.update\<close> does. When the key is
  \<open>__proto__\<close> and the object has no own property of that name, the inherited setter
  runs: a value that is not an object leaves the object as it is, and an object or
  \<open>null\<close> replaces the prototype, after which the object is not one of the values
  described here (the result is \<open>None\<close>).
\<close>

definition js_assign :: "dict \<Rightarrow> string \<Rightarrow> jv \<Rightarrow> dict option" where
  "js_assign obj key v =
     (if key = PROTO \<and> map_of obj key = None
      then (if is_object_or_null v then None else Some obj)
      else Some (AList.update key v obj))"

subsection \<open>Strings\<close>

text \<open>
  \<open>String.prototype.trim\<close> removes the white space and line terminators of ECMAScript
  from both ends: U+0009 to U+000D, U+0020, U+00A0, U+1680, U+2000 to U+200A, U+2028,
  U+2029, U+202F, U+205F, U+3000 and U+FEFF; here in UTF-8.
  \<open>String.prototype.split\<close> is taken on a one-character separator.
\<close>

definition WHITE_SPACE :: "string list" where
  "WHITE_SPACE =
     [[CHR 0x09], [CHR 0x0A], [CHR 0x0B], [CHR 0x0C], [CHR 0x0D], [CHR 0x20],
      [CHR 0xC2, CHR 0xA0],
      [CHR 0xE1, CHR 0x9A, CHR 0x80],
      [CHR 0xE2, CHR 0x80, CHR 0x80], [CHR 0xE2, CHR 0x80, CHR 0x81],
      [CHR 0xE2, CHR 0x80, CHR 0x82], [CHR 0xE2, CHR 0x80, CHR 0x83],
      [CHR 0xE2, CHR 0x80, CHR 0x84], [CHR 0xE2, CHR 0x80, CHR 0x85],
      [CHR 0xE2, CHR 0x80, CHR 0x86], [CHR 0xE2, CHR 0x80, CHR 0x87],
      [CHR 0xE2, CHR 0x80, CHR 0x88], [CHR 0xE2, CHR 0x80, CHR 0x89],
      [CHR 0xE2, CHR 0x80, CHR 0x8A],
      [CHR 0xE2, CHR 0x80, CHR 0xA8], [CHR 0xE2, CHR 0x80, CHR 0xA9],
      [CHR 0xE2, CHR 0x80, CHR 0xAF],
      [CHR 0xE2, CHR 0x81, CHR 0x9F],
      [CHR 0xE3, CHR 0x80, CHR 0x80],
      [CHR 0xEF, CHR 0xBB, CHR 0xBF]]"

text \<open>The length of the white space character that the string starts with, or 0.\<close>

definition lead :: "string list \<Rightarrow> string \<Rightarrow> nat" where
  "lead seqs s = (case find (\<lambda>w. w \<noteq> [] \<and> prefix w s) seqs of None \<Rightarrow> 0 | Some w \<Rightarrow> length w)"

lemma lead_less: "0 < lead seqs s \<Longrightarrow> length s - lead seqs s < length s"
  by (cases s) (auto simp: lead_def find_Some_iff split: option.splits)

function strip :: "string list \<Rightarrow> string \<Rightarrow> string" where
  "strip seqs s = (if lead seqs s = 0 then s else strip seqs (drop (lead seqs s) s))"
  by pat_completeness auto
termination
  by (relation "measure (\<lambda>(seqs, s). length s)") (auto simp: lead_less)

declare strip.simps [simp del]

definition trim :: "string \<Rightarrow> string" where
  "trim s = rev (strip (map rev WHITE_SPACE) (rev (strip WHITE_SPACE s)))"

lemma lead_zero_iff: "lead seqs s = 0 \<longleftrightarrow> (\<forall>w\<in>set seqs. w \<noteq> [] \<longrightarrow> \<not> prefix w s)"
  by (auto simp: lead_def find_None_iff find_Some_iff split: option.splits)

lemma strip_fix: "lead seqs s = 0 \<Longrightarrow> strip seqs s = s"
  by (subst strip.simps) simp

lemma strip_step: "0 < lead seqs s \<Longrightarrow> strip seqs s = strip seqs (drop (lead seqs s) s)"
  by (subst strip.simps) simp

lemma lead_strip: "lead seqs (strip seqs s) = 0"
proof (induction seqs s rule: strip.induct)
  case (1 seqs s)
  show ?case
  proof (cases "lead seqs s = 0")
    case True
    then show ?thesis by (simp add: strip_fix)
  next
    case False
    then have n: "0 < lead seqs s" by simp
    from 1 [OF False] show ?thesis by (simp add: strip_step [OF n])
  qed
qed

lemma strip_suffix: "suffix (strip seqs s) s"
proof (induction seqs s rule: strip.induct)
  case (1 seqs s)
  show ?case
  proof (cases "lead seqs s = 0")
    case True
    then show ?thesis by (simp add: strip_fix)
  next
    case False
    then have n: "0 < lead seqs s" by simp
    from 1 [OF False] have "suffix (strip seqs (drop (lead seqs s) s)) (drop (lead seqs s) s)" .
    then have "suffix (strip seqs (drop (lead seqs s) s)) s"
      using suffix_drop suffix_order.trans by blast
    then show ?thesis by (simp add: strip_step [OF n])
  qed
qed

lemma lead_rev_suffix:
  assumes "lead (map rev seqs) (rev s) = 0" and "suffix t s"
  shows "lead (map rev seqs) (rev t) = 0"
proof -
  from assms(2) have p: "prefix (rev t) (rev s)" by (simp add: suffix_to_prefix)
  show ?thesis
    unfolding lead_zero_iff
  proof (intro ballI impI)
    fix w assume w: "w \<in> set (map rev seqs)" "w \<noteq> []"
    with assms(1) have "\<not> prefix w (rev s)" unfolding lead_zero_iff by blast
    then show "\<not> prefix w (rev t)" using p prefix_order.trans by blast
  qed
qed

lemma lead_prefix:
  assumes "lead seqs s = 0" and "prefix t s"
  shows "lead seqs t = 0"
  using assms unfolding lead_zero_iff using prefix_order.trans by blast

lemma trim_idem: "trim (trim s) = trim s"
proof -
  define a where "a = strip WHITE_SPACE s"
  define b where "b = strip (map rev WHITE_SPACE) (rev a)"
  have t: "trim s = rev b" by (simp add: trim_def a_def b_def)
  have la: "lead WHITE_SPACE a = 0" unfolding a_def by (rule lead_strip)
  have "suffix b (rev a)" unfolding b_def by (rule strip_suffix)
  then have "prefix (rev b) a" by (metis rev_rev_ident suffix_to_prefix)
  with la have "lead WHITE_SPACE (rev b) = 0" by (rule lead_prefix)
  then have 1: "strip WHITE_SPACE (rev b) = rev b" by (rule strip_fix)
  have "lead (map rev WHITE_SPACE) b = 0" unfolding b_def by (rule lead_strip)
  then have 2: "strip (map rev WHITE_SPACE) b = b" by (rule strip_fix)
  show ?thesis unfolding t by (simp add: trim_def 1 2)
qed

lemmas trim_eval = trim_def strip_fix strip_step lead_def WHITE_SPACE_def


section \<open>Settings utilities (runtime/settings\_utils)\<close>



text \<open>
  \<open>deep_clone\<close> builds a fresh array with \<open>map\<close> and a fresh object by assigning
  \<open>out[key] = deep_clone(child)\<close> for every own property, so an own property \<open>__proto__\<close>
  goes through the setter; \<open>Object.prototype\<close> has no enumerable property, so its
  clone is \<open>{}\<close>. Every other value is returned as it is. The functions of this
  section have the result \<open>None\<close> when a step replaces a prototype or writes to
  \<open>Object.prototype\<close> itself, which changes every object of the process.
\<close>

fun deep_clone :: "jv \<Rightarrow> jv option"
  and clone_items :: "jv list \<Rightarrow> jv list option"
  and clone_entries :: "dict \<Rightarrow> dict \<Rightarrow> dict option" where
  "deep_clone (JArr items) = map_option JArr (clone_items items)"
| "deep_clone (JObj entries) = map_option JObj (clone_entries entries [])"
| "deep_clone JProto = Some (JObj [])"
| "deep_clone JNull = Some JNull"
| "deep_clone (JBool b) = Some (JBool b)"
| "deep_clone (JNum n) = Some (JNum n)"
| "deep_clone (JStr s) = Some (JStr s)"
| "deep_clone JFun = Some JFun"
| "clone_items [] = Some []"
| "clone_items (item # rest) =
     (case deep_clone item of
        None \<Rightarrow> None
      | Some c \<Rightarrow> map_option ((#) c) (clone_items rest))"
| "clone_entries [] out = Some out"
| "clone_entries ((key, child) # rest) out =
     (case deep_clone child of
        None \<Rightarrow> None
      | Some c \<Rightarrow>
          (case js_assign out key c of
             None \<Rightarrow> None
           | Some out' \<Rightarrow> clone_entries rest out'))"

text \<open>The own enumerable properties of a plain object (\<open>Object.entries\<close>).\<close>

fun own_entries :: "jv \<Rightarrow> dict" where
  "own_entries (JObj entries) = entries"
| "own_entries v = []"

text \<open>A measure of values under which a clone is not larger than its original.\<close>

fun weight :: "jv \<Rightarrow> nat" where
  "weight (JArr items) = Suc (sum_list (map weight items))"
| "weight (JObj entries) = Suc (sum_list (map (\<lambda>kv. Suc (weight (snd kv))) entries))"
| "weight JProto = 1"
| "weight v = 0"

definition eweight :: "dict \<Rightarrow> nat" where
  "eweight entries = sum_list (map (\<lambda>kv. Suc (weight (snd kv))) entries)"

lemma eweight_simps [simp]:
  "eweight [] = 0"
  "eweight ((key, v) # rest) = Suc (weight v) + eweight rest"
  by (simp_all add: eweight_def)

lemma weight_plain: "is_plain_object (Some v) \<Longrightarrow> weight v = Suc (eweight (own_entries v))"
  by (cases v) (simp_all add: eweight_def)

lemma update_weight: "eweight (AList.update key c out) \<le> eweight out + Suc (weight c)"
  by (induction out) auto

lemma js_assign_weight:
  "js_assign out key c = Some out' \<Longrightarrow> eweight out' \<le> eweight out + Suc (weight c)"
  using update_weight [of key c out] by (auto simp: js_assign_def split: if_splits)

lemma clone_weight:
  "deep_clone v = Some c \<Longrightarrow> weight c \<le> weight v"
  "clone_items items = Some cs \<Longrightarrow> sum_list (map weight cs) \<le> sum_list (map weight items)"
  "clone_entries es out = Some r \<Longrightarrow> eweight r \<le> eweight out + eweight es"
proof (induction v and items and es out arbitrary: c and cs and r
    rule: deep_clone_clone_items_clone_entries.induct)
  case (12 key child rest out)
  from 12(3) obtain c out' where c: "deep_clone child = Some c"
    and o: "js_assign out key c = Some out'" and r: "clone_entries rest out' = Some r"
    by (auto split: option.splits)
  from 12(1) [OF c] js_assign_weight [OF o] 12(2) [OF c o r] show ?case by simp
next
  case (10 item rest)
  from 10(3) obtain c z where c: "deep_clone item = Some c" and z: "clone_items rest = Some z"
    and cs: "cs = c # z"
    by (auto split: option.splits)
  from 10(1) [OF c] 10(2) [OF c z] show ?case by (simp add: cs)
next
  case (2 entries)
  then show ?case by (auto simp: eweight_def [symmetric])
qed (auto split: option.splits)

text \<open>
  \<open>deepMerge\<close>: both arguments are cloned, \<open>out\<close> starts as the clone of \<open>base\<close>, and
  the loop over the entries of the cloned patch reads \<open>out[key]\<close> and assigns it.
\<close>

function merge_loop :: "dict \<Rightarrow> dict \<Rightarrow> dict option"
  and deepMerge :: "dict \<Rightarrow> dict \<Rightarrow> dict option" where
  "merge_loop out [] = Some out"
| "merge_loop out ((key, val) # rest) =
     (case js_get (JObj out) key of
        Some current \<Rightarrow>
          if is_plain_object (Some current) \<and> is_plain_object (Some val)
          then (case deepMerge (own_entries current) (own_entries val) of
                  None \<Rightarrow> None
                | Some merged \<Rightarrow>
                    (case js_assign out key (JObj merged) of
                       None \<Rightarrow> None
                     | Some out' \<Rightarrow> merge_loop out' rest))
          else (case deep_clone val of
                  None \<Rightarrow> None
                | Some c \<Rightarrow>
                    (case js_assign out key c of
                       None \<Rightarrow> None
                     | Some out' \<Rightarrow> merge_loop out' rest))
      | None \<Rightarrow>
          (case deep_clone val of
             None \<Rightarrow> None
           | Some c \<Rightarrow>
               (case js_assign out key c of
                  None \<Rightarrow> None
                | Some out' \<Rightarrow> merge_loop out' rest)))"
| "deepMerge base patch =
     (case (clone_entries base [], clone_entries patch []) of
        (Some left, Some right) \<Rightarrow> merge_loop left right
      | _ \<Rightarrow> None)"
  by pat_completeness auto
termination
  apply (relation "measure (\<lambda>x. case x of
            Inl (out, es) \<Rightarrow> 2 * eweight es
          | Inr (b, p) \<Rightarrow> 2 * eweight p + 1)")
          apply (auto dest: clone_weight(3) [OF sym] simp: weight_plain)
  done














section \<open>The settings utilities on own properties\<close>

text \<open>
  Reference versions of the utilities that look at own properties only: a read is a
  lookup in the list of properties, an assignment is \<open>AList.update\<close>, a clone is the
  value. They are what the utilities compute on documents that do not use the names of
  the members of \<open>Object.prototype\<close> (shown below), and the facts about paths are
  proved on them first.
\<close>

function merge_own_loop :: "dict \<Rightarrow> dict \<Rightarrow> dict" and merge_own :: "dict \<Rightarrow> dict \<Rightarrow> dict" where
  "merge_own_loop out [] = out"
| "merge_own_loop out ((key, val) # rest) =
     (case (map_of out key, val) of
        (Some (JObj current), JObj pv) \<Rightarrow>
          merge_own_loop (AList.update key (JObj (merge_own current pv)) out) rest
      | _ \<Rightarrow> merge_own_loop (AList.update key val out) rest)"
| "merge_own base patch = merge_own_loop base patch"
  by pat_completeness auto
termination
  apply (relation "measure (\<lambda>x. case x of
            Inl (out, es) \<Rightarrow> 2 * size_list (size_prod (\<lambda>_. 0) size) es
          | Inr (b, p) \<Rightarrow> 2 * size_list (size_prod (\<lambda>_. 0) size) p + 1)")
    apply auto
  done

fun get_own :: "jv option \<Rightarrow> string list \<Rightarrow> jv option" where
  "get_own cursor [] = cursor"
| "get_own cursor (key # rest) =
     (case cursor of
        Some (JObj entries) \<Rightarrow> get_own (map_of entries key) rest
      | _ \<Rightarrow> None)"










lemma merge_own_merge_loop: "merge_own base patch = merge_own_loop base patch"
  by simp

lemma merge_own_loop_lookup:
  "distinct (map fst es) \<Longrightarrow>
   map_of (merge_own_loop out es) k =
     (case map_of es k of
        None \<Rightarrow> map_of out k
      | Some pv \<Rightarrow>
          (case (map_of out k, pv) of
             (Some (JObj b), JObj p) \<Rightarrow> Some (JObj (merge_own b p))
           | _ \<Rightarrow> Some pv))"
proof (induction es arbitrary: out)
  case Nil
  then show ?case by simp
next
  case (Cons e es)
  obtain key val where e: "e = (key, val)" by (cases e)
  from Cons.prems e have dist: "distinct (map fst es)" and fresh: "key \<notin> fst ` set es"
    by auto
  from fresh have none: "map_of es key = None"
    by (simp add: map_of_eq_None_iff)
  show ?case
  proof (cases "k = key")
    case True
    then show ?thesis
      using e none Cons.IH [OF dist]
      by (auto simp: update_conv' split: option.splits jv.splits)
  next
    case False
    then show ?thesis
      using e Cons.IH [OF dist]
      by (auto simp: update_conv' split: option.splits jv.splits)
  qed
qed

subsection \<open>Paths: reading after writing\<close>

lemma get_own_None [simp]: "get_own None ks = None"
  by (cases ks) auto

lemma get_own_nonobj:
  "ks \<noteq> [] \<Longrightarrow> \<not> is_plain_object c \<Longrightarrow> get_own c ks = None"
  by (cases ks; cases c rule: is_plain_object.cases) auto







subsection \<open>Well-formed objects stay well-formed\<close>

lemma wf_JObj: "wf_jv (JObj c) = wf_dict c"
  by (simp add: wf_dict_def)



lemma list_all_update:
  "list_all P d \<Longrightarrow> P (k, v) \<Longrightarrow> list_all P (AList.update k v d)"
  by (induction d) auto










subsection \<open>The loops of the mask protocol\<close>









section \<open>Documents on which the utilities work on own properties\<close>

text \<open>
  A value is plain when no object in it has a property named \<open>__proto__\<close>, every object
  holds each key once, and \<open>Object.prototype\<close> itself does not occur in it. A dotted
  path is plain when none of its parts names a member of \<open>Object.prototype\<close>.
\<close>

fun plain_jv :: "jv \<Rightarrow> bool" where
  "plain_jv (JArr items) = list_all plain_jv items"
| "plain_jv (JObj entries) =
     (distinct (map fst entries) \<and> list_all (\<lambda>kv. fst kv \<noteq> PROTO \<and> plain_jv (snd kv)) entries)"
| "plain_jv JProto = False"
| "plain_jv v = True"

definition plain_dict :: "dict \<Rightarrow> bool" where
  "plain_dict d = (distinct (map fst d) \<and> list_all (\<lambda>kv. fst kv \<noteq> PROTO \<and> plain_jv (snd kv)) d)"



lemma plain_JObj: "plain_jv (JObj d) = plain_dict d"
  by (simp add: plain_dict_def)




lemma plain_dict_lookup: "plain_dict d \<Longrightarrow> map_of d k = Some v \<Longrightarrow> plain_jv v"
  by (auto simp: plain_dict_def list_all_iff dest: map_of_SomeD)

lemma plain_dict_no_proto: "plain_dict d \<Longrightarrow> map_of d PROTO = None"
  by (auto simp: plain_dict_def list_all_iff map_of_eq_None_iff)

lemma plain_dict_update:
  "plain_dict d \<Longrightarrow> plain_jv v \<Longrightarrow> k \<noteq> PROTO \<Longrightarrow> plain_dict (AList.update k v d)"
  by (simp add: plain_dict_def distinct_update list_all_update)


lemma update_fresh: "k \<notin> fst ` set d \<Longrightarrow> AList.update k v d = d @ [(k, v)]"
  by (induction d) auto

lemma js_assign_plain: "k \<noteq> PROTO \<Longrightarrow> js_assign d k v = Some (AList.update k v d)"
  by (simp add: js_assign_def)

lemma js_get_plain:
  "js_get JProto k = None \<Longrightarrow> js_get (JObj d) k = map_of d k"
  by (auto split: option.splits if_splits)

lemma clone_plain:
  "plain_jv v \<Longrightarrow> deep_clone v = Some v"
  "list_all plain_jv items \<Longrightarrow> clone_items items = Some items"
  "list_all (\<lambda>kv. fst kv \<noteq> PROTO \<and> plain_jv (snd kv)) es \<Longrightarrow> distinct (map fst es) \<Longrightarrow>
     fst ` set es \<inter> fst ` set out = {} \<Longrightarrow> clone_entries es out = Some (out @ es)"
proof (induction v and items and es out rule: deep_clone_clone_items_clone_entries.induct)
  case (12 key child rest out)
  from 12(3) have c: "deep_clone child = Some child" and k: "key \<noteq> PROTO"
    using 12(1) by auto
  from 12(5) have fresh: "key \<notin> fst ` set out" by auto
  have a: "js_assign out key child = Some (out @ [(key, child)])"
    using k fresh by (simp add: js_assign_plain update_fresh)
  have "clone_entries rest (out @ [(key, child)]) = Some ((out @ [(key, child)]) @ rest)"
    using 12(2) [OF c a] 12(3,4,5) by auto
  then show ?case using c a by simp
qed auto

lemma clone_entries_plain: "plain_dict d \<Longrightarrow> clone_entries d [] = Some d"
  using clone_plain(3) [of d "[]"] by (simp add: plain_dict_def)

declare deepMerge.simps [simp del]

lemma deepMerge_plain_unfold:
  "plain_dict base \<Longrightarrow> plain_dict patch \<Longrightarrow> deepMerge base patch = merge_loop base patch"
  by (simp add: deepMerge.simps clone_entries_plain)

lemma weight_JObj: "weight (JObj d) = Suc (eweight d)"
  by (simp add: eweight_def)

lemma merge_plain_aux:
  "eweight es < n \<Longrightarrow> plain_dict out \<Longrightarrow> plain_dict es \<Longrightarrow>
     merge_loop out es = Some (merge_own_loop out es) \<and> plain_dict (merge_own_loop out es)"
proof (induction n arbitrary: out es)
  case 0
  then show ?case by simp
next
  case (Suc n)
  show ?case
  proof (cases es)
    case Nil
    with Suc.prems show ?thesis by simp
  next
    case (Cons e rest)
    obtain key val where e: "e = (key, val)" by (cases e)
    from Suc.prems(3) Cons e have k: "key \<noteq> PROTO" and pv: "plain_jv val" and pr: "plain_dict rest"
      by (auto simp: plain_dict_def)
    from Suc.prems(1) Cons e have wr: "eweight rest < n" by simp
    have step: "\<And>v. plain_jv v \<Longrightarrow>
        merge_loop (AList.update key v out) rest = Some (merge_own_loop (AList.update key v out) rest)
        \<and> plain_dict (merge_own_loop (AList.update key v out) rest)"
      using Suc.IH [OF wr plain_dict_update [OF Suc.prems(2) _ k] pr] by blast
    show ?thesis
    proof (cases "\<exists>current pvs. map_of out key = Some (JObj current) \<and> val = JObj pvs")
      case True
      then obtain current pvs where c: "map_of out key = Some (JObj current)" and v: "val = JObj pvs"
        by blast
      from plain_dict_lookup [OF Suc.prems(2) c] have pc: "plain_dict current" by (simp add: plain_dict_def)
      from pv v have pp: "plain_dict pvs" by (simp add: plain_dict_def)
      from Suc.prems(1) Cons e v have "eweight pvs < n" by (simp add: eweight_def [of pvs])
      from Suc.IH [OF this pc pp]
      have m: "merge_loop current pvs = Some (merge_own_loop current pvs)"
        and pm: "plain_dict (merge_own_loop current pvs)" by auto
      have dm: "deepMerge current pvs = Some (merge_own_loop current pvs)"
        using m by (simp add: deepMerge_plain_unfold [OF pc pp])
      from pm have "plain_jv (JObj (merge_own_loop current pvs))" by (simp add: plain_dict_def)
      from step [OF this]
      show ?thesis
        unfolding Cons e v
        by (simp add: c dm js_assign_plain [OF k])
    next
      case False
      have cl: "deep_clone val = Some val" using pv by (rule clone_plain(1))
      have own: "merge_own_loop out ((key, val) # rest) = merge_own_loop (AList.update key val out) rest"
        using False by (auto split: option.splits jv.splits)
      have "merge_loop out ((key, val) # rest) = merge_loop (AList.update key val out) rest"
      proof (cases "map_of out key")
        case None
        then show ?thesis using k cl by (auto simp: js_assign_plain [OF k])
      next
        case (Some current)
        from plain_dict_lookup [OF Suc.prems(2) Some] have "plain_jv current" .
        with False Some pv have "\<not> (is_plain_object (Some current) \<and> is_plain_object (Some val))"
          by (cases current; cases val) auto
        then show ?thesis using Some cl by (auto simp: js_assign_plain [OF k])
      qed
      with step [OF pv] own show ?thesis unfolding Cons e by simp
    qed
  qed
qed

lemma merge_loop_plain:
  "plain_dict out \<Longrightarrow> plain_dict es \<Longrightarrow> merge_loop out es = Some (merge_own_loop out es)"
  using merge_plain_aux [of es "Suc (eweight es)" out] by simp

lemma deepMerge_plain:
  "plain_dict base \<Longrightarrow> plain_dict patch \<Longrightarrow> deepMerge base patch = Some (merge_own base patch)"
  by (simp add: deepMerge_plain_unfold merge_loop_plain)





















section \<open>The merge and the mask protocol\<close>

text \<open>
  C9. For objects \<open>base\<close> and \<open>patch\<close> that are plain (no property named \<open>__proto__\<close> at
  any depth, each key once), \<open>deepMerge\<close> returns an object that, for every key of the
  patch, holds at that key the recursive merge when both sides hold a plain object
  there, and the clone of the patch value otherwise (an array or a scalar replaces the
  base value whole); a key of the base that the patch does not have keeps its base
  value. In particular
  \<open>deepMerge {a:{x:1,y:2}} {a:{y:3,z:4}} = {a:{x:1,y:3,z:4}}\<close>.
\<close>

theorem deepMerge_keywise:
  assumes "plain_dict base" and "plain_dict patch"
  shows "(\<exists>merged. deepMerge base patch = Some merged
           \<and> map_of merged key =
               (case map_of patch key of
                  None \<Rightarrow> map_of base key
                | Some pv \<Rightarrow>
                    (case (map_of base key, pv) of
                       (Some (JObj b), JObj p) \<Rightarrow> map_option JObj (deepMerge b p)
                     | _ \<Rightarrow> deep_clone pv)))
       \<and> deepMerge [(''a'', JObj [(''x'', JNum 1), (''y'', JNum 2)])]
                    [(''a'', JObj [(''y'', JNum 3), (''z'', JNum 4)])]
           = Some [(''a'', JObj [(''x'', JNum 1), (''y'', JNum 3), (''z'', JNum 4)])]"
proof
  from assms(2) have dist: "distinct (map fst patch)" by (simp add: plain_dict_def)
  have m: "deepMerge base patch = Some (merge_own base patch)"
    using assms by (rule deepMerge_plain)
  have "map_of (merge_own base patch) key =
               (case map_of patch key of
                  None \<Rightarrow> map_of base key
                | Some pv \<Rightarrow>
                    (case (map_of base key, pv) of
                       (Some (JObj b), JObj p) \<Rightarrow> map_option JObj (deepMerge b p)
                     | _ \<Rightarrow> deep_clone pv))"
  proof (cases "map_of patch key")
    case None
    then show ?thesis
      unfolding merge_own_merge_loop [of base patch] merge_own_loop_lookup [OF dist] by simp
  next
    case (Some pv)
    from assms(2) Some have ppv: "plain_jv pv" by (rule plain_dict_lookup)
    then have cl: "deep_clone pv = Some pv" by (rule clone_plain(1))
    show ?thesis
    proof (cases "\<exists>b p. map_of base key = Some (JObj b) \<and> pv = JObj p")
      case True
      then obtain b p where b: "map_of base key = Some (JObj b)" and p: "pv = JObj p" by blast
      from plain_dict_lookup [OF assms(1) b] have pb: "plain_dict b" by (simp add: plain_dict_def)
      from ppv p have pp: "plain_dict p" by (simp add: plain_dict_def)
      show ?thesis
        unfolding merge_own_merge_loop [of base patch] merge_own_loop_lookup [OF dist]
        by (simp add: Some b p deepMerge_plain [OF pb pp] del: merge_own.simps)
    next
      case False
      with cl ppv show ?thesis
        unfolding merge_own_merge_loop [of base patch] merge_own_loop_lookup [OF dist]
        by (auto simp: Some split: option.splits jv.splits simp del: merge_own.simps)
    qed
  qed
  with m show "\<exists>merged. deepMerge base patch = Some merged
           \<and> map_of merged key =
               (case map_of patch key of
                  None \<Rightarrow> map_of base key
                | Some pv \<Rightarrow>
                    (case (map_of base key, pv) of
                       (Some (JObj b), JObj p) \<Rightarrow> map_option JObj (deepMerge b p)
                     | _ \<Rightarrow> deep_clone pv))" by blast
  show "deepMerge [(''a'', JObj [(''x'', JNum 1), (''y'', JNum 2)])]
                  [(''a'', JObj [(''y'', JNum 3), (''z'', JNum 4)])]
           = Some [(''a'', JObj [(''x'', JNum 1), (''y'', JNum 3), (''z'', JNum 4)])]"
    by (simp add: deepMerge.simps js_assign_def PROTO_def)
qed

theorem deepMerge_keywise_witness:
  "plain_dict [(''a'', JArr [JNum 0, JNum 2]), (''b'', JNum 5), (''c'', JObj [(''x'', JNum 1)])]
   \<and> plain_dict [(''a'', JArr [JNum 1]), (''c'', JObj [(''y'', JNum 3)])]
   \<and> map_option (\<lambda>merged. map_of merged ''a'')
        (deepMerge [(''a'', JArr [JNum 0, JNum 2]), (''b'', JNum 5), (''c'', JObj [(''x'', JNum 1)])]
                   [(''a'', JArr [JNum 1]), (''c'', JObj [(''y'', JNum 3)])])
       = Some (Some (JArr [JNum 1]))"
  using deepMerge_keywise [of "[(''a'', JArr [JNum 0, JNum 2]), (''b'', JNum 5), (''c'', JObj [(''x'', JNum 1)])]"
      "[(''a'', JArr [JNum 1]), (''c'', JObj [(''y'', JNum 3)])]" "''a''"]
  by (simp add: plain_dict_def PROTO_def deepMerge.simps js_assign_def)

text \<open>
  C9 as stated, for every pair of objects, fails at the key \<open>__proto__\<close>, which
  \<open>JSON.parse\<close> makes an own property: the assignment \<open>out["__proto__"] = 5\<close> in the
  clone and in the merge loop goes to the setter of \<open>Object.prototype\<close> and is dropped.
  The patch \<open>{"__proto__": 5, "ok": 1}\<close> merged onto \<open>{}\<close> gives \<open>{ok: 1}\<close>, without
  the patch value at that key, and the base \<open>{"__proto__": 5}\<close> merged with the patch
  \<open>{}\<close> gives \<open>{}\<close>, without the base value.
\<close>

theorem deepMerge_proto_key_counterexample:
  "map_of [(''__proto__'', JNum 5), (''ok'', JNum 1)] ''__proto__'' = Some (JNum 5)
   \<and> deepMerge [] [(''__proto__'', JNum 5), (''ok'', JNum 1)] = Some [(''ok'', JNum 1)]
   \<and> map_of [(''ok'', JNum 1)] ''__proto__'' \<noteq> deep_clone (JNum 5)
   \<and> deepMerge [(''__proto__'', JNum 5)] [] = Some []"
  by (simp add: deepMerge.simps js_assign_def PROTO_def)









section \<open>Errors\<close>

text \<open>
  Every \<open>throw new XError(code, ...)\<close> of the modelled code is a value of \<open>xerror\<close>,
  named by its code; the message is dropped. \<open>External\<close> is an error raised by a
  collaborator outside this core (the file system, the dispatcher, a skill's own hook),
  with its message.
\<close>

datatype xerror =
    E_AGENT_GUARD_INIT
  | E_AGENT_FORBIDDEN
  | E_SKILLS_BAD_PARAMS
  | E_SKILLS_NOT_ALLOWLISTED
  | E_SKILLS_PERSIST_FAILED
  | E_SKILLS_BAD_MODULE
  | E_SKILLS_MODULE_CONFLICT
  | E_SKILLS_DISABLED
  | E_SKILLS_BAD_CONFIG
  | E_SKILLS_RESOLVE_FAILED
  | E_SETTINGS_BAD_PARAMS
  | E_SETTINGS_BAD_META
  | External string

section \<open>Capability guard (runtime/guards)\<close>

record AgentActor =
  user_id :: "string option"
  role :: "string option"
  channel :: "string option"
  source :: "string option"

record AgentCommandCtx =
  wid :: "string option"
  sid :: "string option"
  kernel_cap :: "string option"
  actor :: "AgentActor option"

text \<open>A command as the dispatcher carries it: \<open>_module\<close>, \<open>_op\<close>, \<open>_params\<close>, \<open>_ctx\<close>.\<close>

record XCommandData =
  x_module :: string
  x_op :: string
  x_params :: "jv option"
  x_ctx :: "jv option"

definition string_field :: "dict \<Rightarrow> string \<Rightarrow> string option" where
  "string_field entries key = (case map_of entries key of Some (JStr s) \<Rightarrow> Some s | _ \<Rightarrow> None)"

definition empty_ctx :: AgentCommandCtx where
  "empty_ctx = \<lparr> wid = None, sid = None, kernel_cap = None, actor = None \<rparr>"

fun to_ctx :: "jv option \<Rightarrow> AgentCommandCtx" where
  "to_ctx (Some (JObj val)) =
     \<lparr> wid = string_field val ''_wid'',
       sid = string_field val ''_sid'',
       kernel_cap = string_field val ''kernel_cap'',
       actor = (case map_of val ''actor'' of
                  Some (JObj actor_raw) \<Rightarrow>
                    Some \<lparr> user_id = string_field actor_raw ''user_id'',
                           role = string_field actor_raw ''role'',
                           channel = string_field actor_raw ''channel'',
                           source = string_field actor_raw ''source'' \<rparr>
                | Some JProto \<Rightarrow>
                    Some \<lparr> user_id = None, role = None, channel = None, source = None \<rparr>
                | _ \<Rightarrow> None) \<rparr>"
| "to_ctx v = empty_ctx"

text \<open>Reading a property of a value that may be \<open>undefined\<close> (\<open>v?.key\<close>).\<close>

fun get_prop :: "jv option \<Rightarrow> string \<Rightarrow> jv option" where
  "get_prop (Some (JObj entries)) key = map_of entries key"
| "get_prop v key = None"

text \<open>
  \<open>readCommandCtx\<close>: the spread \<open>{...root_ctx, ...params_ctx}\<close> takes a field of the
  parameter-level context when it is there and the root one otherwise; so does the actor.
\<close>

definition or_else :: "'a option \<Rightarrow> 'a option \<Rightarrow> 'a option" where
  "or_else a b = (case a of Some x \<Rightarrow> Some x | None \<Rightarrow> b)"

definition readCommandCtx :: "XCommandData \<Rightarrow> AgentCommandCtx" where
  "readCommandCtx xcmd =
     (let root_ctx = to_ctx (x_ctx xcmd);
          params_ctx = to_ctx (get_prop (x_params xcmd) ''_ctx'')
      in \<lparr> wid = or_else (wid params_ctx) (wid root_ctx),
           sid = or_else (sid params_ctx) (sid root_ctx),
           kernel_cap = or_else (kernel_cap params_ctx) (kernel_cap root_ctx),
           actor = or_else (actor params_ctx) (actor root_ctx) \<rparr>)"

text \<open>
  \<open>requireKernelCap\<close> reads the module variable \<open>_kernel_cap_secret\<close>, here the first
  argument (the empty string until \<open>setKernelCapSecret\<close> has run).
\<close>

definition requireKernelCap :: "string \<Rightarrow> AgentCommandCtx \<Rightarrow> xerror + unit" where
  "requireKernelCap secret ctx =
     (if secret = [] then Inl E_AGENT_GUARD_INIT
      else (case kernel_cap ctx of
              None \<Rightarrow> Inl E_AGENT_FORBIDDEN
            | Some cap \<Rightarrow>
                if length cap = 0 then Inl E_AGENT_FORBIDDEN
                else if cap \<noteq> secret then Inl E_AGENT_FORBIDDEN
                else Inr ()))"

text \<open>
  The rank table has the four roles. For any other key the lookup gives no number
  (\<open>undefined\<close>, or an inherited member of the object prototype), and \<open><\<close> with an
  operand that is not a number is false.
\<close>

definition rank :: "string \<Rightarrow> nat option" where
  "rank r = (if r = ''customer'' then Some 1
             else if r = ''admin'' then Some 2
             else if r = ''owner'' then Some 3
             else if r = ''system'' then Some 4
             else None)"

fun js_less :: "nat option \<Rightarrow> nat option \<Rightarrow> bool" where
  "js_less (Some a) (Some b) = (a < b)"
| "js_less a b = False"

definition requireActorRole :: "AgentCommandCtx \<Rightarrow> string \<Rightarrow> xerror + unit" where
  "requireActorRole ctx required =
     (case (case actor ctx of None \<Rightarrow> None | Some a \<Rightarrow> role a) of
        None \<Rightarrow> Inl E_AGENT_FORBIDDEN
      | Some current_role \<Rightarrow>
          if current_role = [] then Inl E_AGENT_FORBIDDEN
          else if js_less (rank current_role) (rank required) then Inl E_AGENT_FORBIDDEN
          else Inr ())"

definition requireKernelCapOrActorRole :: "string \<Rightarrow> AgentCommandCtx \<Rightarrow> string \<Rightarrow> xerror + unit" where
  "requireKernelCapOrActorRole secret ctx required =
     (case requireKernelCap secret ctx of
        Inr ok \<Rightarrow> Inr ok
      | Inl err \<Rightarrow> requireActorRole ctx required)"





section \<open>Skill manager (modules/SkillManagerModule)\<close>

subsection \<open>Input normalisation\<close>

text \<open>
  \<open>normalize_string_array\<close>: the strings of an array, trimmed, without the blank ones
  and without repetitions, in order of first appearance (\<open>seen\<close> holds what \<open>out\<close>
  holds).
\<close>

fun normalize_loop :: "jv list \<Rightarrow> string list \<Rightarrow> string list" where
  "normalize_loop [] out = out"
| "normalize_loop (JStr item # rest) out =
     (let trimmed = trim item
      in if trimmed = [] \<or> trimmed \<in> set out then normalize_loop rest out
         else normalize_loop rest (out @ [trimmed]))"
| "normalize_loop (item # rest) out = normalize_loop rest out"

fun normalize_string_array :: "jv option \<Rightarrow> string list" where
  "normalize_string_array (Some (JArr items)) = normalize_loop items []"
| "normalize_string_array v = []"

text \<open>The error code is the module's own (\<open>E_SKILLS_BAD_PARAMS\<close>, \<open>E_SETTINGS_BAD_PARAMS\<close>).\<close>

fun ensure_non_empty_string :: "xerror \<Rightarrow> jv option \<Rightarrow> xerror + string" where
  "ensure_non_empty_string err (Some (JStr s)) =
     (if length (trim s) = 0 then Inl err else Inr (trim s))"
| "ensure_non_empty_string err v = Inl err"

fun ensure_optional_string :: "jv option \<Rightarrow> string option" where
  "ensure_optional_string (Some (JStr s)) =
     (let trimmed = trim s in if length trimmed > 0 then Some trimmed else None)"
| "ensure_optional_string v = None"

text \<open>
  \<open>ensure_json_object\<close> returns the spread \<open>{...value}\<close>, the own enumerable properties;
  \<open>Object.prototype\<close> has none.
\<close>

fun ensure_json_object :: "xerror \<Rightarrow> jv option \<Rightarrow> xerror + dict" where
  "ensure_json_object err (Some (JObj entries)) =
     (if has_function (JObj entries) then Inl err else Inr entries)"
| "ensure_json_object err (Some JProto) = Inr []"
| "ensure_json_object err v = Inl err"

fun ensure_params :: "xerror \<Rightarrow> jv option \<Rightarrow> xerror + dict" where
  "ensure_params err None = Inr []"
| "ensure_params err (Some JNull) = Inr []"
| "ensure_params err (Some (JObj entries)) =
     (if has_function (JObj entries) then Inl err else Inr entries)"
| "ensure_params err (Some JProto) = Inr []"
| "ensure_params err (Some v) = Inl err"

definition op_key :: "string \<Rightarrow> string \<Rightarrow> string" where
  "op_key module_name op = module_name @ ''.'' @ op"

subsection \<open>State of the manager\<close>

record XBotSkillCapability =
  kernel_ops :: "jv option"
  channels :: "jv option"
  network :: "bool option"

datatype skill_status = Loaded | Error | Disabled

datatype skill_kind = Xbot | Legacy

record LoadedSkillRecord =
  ls_id :: string
  ls_version :: "string option"
  ls_enabled :: bool
  ls_status :: skill_status
  ls_error :: "string option"
  ls_source :: "string option"
  ls_capabilities :: "XBotSkillCapability option"
  ls_modules_registered :: "string list"

text \<open>
  What \<open>registerModule\<close> reads of a module instance: whether it is an object at all,
  its own \<open>_name\<close> and the \<open>_name\<close> of its constructor.
\<close>

record module_instance =
  is_object :: bool
  own_name :: "jv option"
  ctor_name :: "jv option"

text \<open>
  A hook of a skill (\<open>onEnable\<close>, \<open>onDisable\<close>) is third-party code. The model takes
  from it what it does to the manager through its sandbox context: the modules it
  registers, each with what the module registry answers for that name at that moment,
  and whether it throws in the end.
\<close>

record hook_script =
  registers :: "(module_instance \<times> bool) list"
  throws :: "string option"

record SkillSettingsMeta =
  defaults :: "jv option"
  sensitive :: "jv option"

record skill_descriptor =
  d_kind :: skill_kind
  d_version :: string
  d_capabilities :: XBotSkillCapability
  d_settings_meta :: "SkillSettingsMeta option"
  d_on_enable :: hook_script
  d_on_disable :: "hook_script option"

record SkillRuntimeRecord =
  rt_id :: string
  rt_version :: string
  rt_kind :: skill_kind
  rt_capabilities :: XBotSkillCapability
  rt_source :: string
  rt_on_disable :: "hook_script option"

record AgentConfig =
  allow :: "string list"
  cfg_enabled :: "string list"
  node_modules :: bool
  local_paths :: "string list"

text \<open>
  The configuration file as \<open>fs.readFile\<close> and \<open>JSON.parse\<close> see it: missing
  (\<open>ENOENT\<close>), unreadable (another read error, or text that does not parse), or a
  JSON value.
\<close>

datatype file_state = Missing | Unreadable string | Content jv

text \<open>
  The fields of the manager, and the two stores it writes to: the configuration file
  and the settings store behind the settings module. A \<open>Set\<close> is the list of its
  members in insertion order.
\<close>

record world =
  config :: AgentConfig
  enabled :: "string list"
  activating :: "string list"
  loaded :: "string \<rightharpoonup> LoadedSkillRecord"
  skill_to_modules :: "string \<rightharpoonup> string list"
  module_to_skill :: "string \<rightharpoonup> string"
  runtime_by_skill :: "string \<rightharpoonup> SkillRuntimeRecord"
  settings_meta_by_skill :: "string \<rightharpoonup> SkillSettingsMeta"
  mgr_kernel_cap :: string
  config_file :: file_state
  settings_store :: dict

definition set_add :: "string \<Rightarrow> string list \<Rightarrow> string list" where
  "set_add x xs = (if x \<in> set xs then xs else xs @ [x])"

definition set_delete :: "string \<Rightarrow> string list \<Rightarrow> string list" where
  "set_delete x xs = removeAll x xs"

text \<open>
  The collaborators outside this core, fixed over one command: the order of
  \<open>localeCompare\<close>; resolving, importing and validating a skill package (its descriptor
  and source, or the error); the dispatcher \<open>_x.execute\<close> with the modules behind it,
  which for the state of the manager and a command gives the error thrown or the value
  returned, and the settings store afterwards; the message text of an error of this
  core; a failure of the write of the configuration file; and the secret the guard was
  initialised with.
\<close>

record env =
  locale_le :: "string \<Rightarrow> string \<Rightarrow> bool"
  load_skill :: "string \<Rightarrow> xerror + (skill_descriptor \<times> string)"
  x_execute :: "world \<Rightarrow> XCommandData \<Rightarrow> (xerror + jv option) \<times> dict"
  message_of :: "xerror \<Rightarrow> string"
  write_fault :: "xerror option"
  guard_secret :: string

subsection \<open>The sandbox context of a skill\<close>

definition assert_skill_enabled_for_callback :: "world \<Rightarrow> string \<Rightarrow> xerror + unit" where
  "assert_skill_enabled_for_callback st skill_id =
     (if skill_id \<notin> set (enabled st) \<and> skill_id \<notin> set (activating st)
      then Inl E_SKILLS_DISABLED else Inr ())"

text \<open>
  \<open>execute\<close> of the context built by \<open>create_skill_context skill_id skill_version
  capabilities\<close>. The result is the command handed to the dispatcher.
\<close>

definition ctx_execute ::
  "world \<Rightarrow> string \<Rightarrow> XBotSkillCapability \<Rightarrow> jv option \<Rightarrow> jv option \<Rightarrow> jv option \<Rightarrow> jv option
     \<Rightarrow> xerror + XCommandData" where
  "ctx_execute st skill_id capabilities module_name op params meta =
     (let kernel_allow = normalize_string_array (kernel_ops capabilities) in
      case assert_skill_enabled_for_callback st skill_id of
        Inl e \<Rightarrow> Inl e
      | Inr u \<Rightarrow>
      (case ensure_non_empty_string E_SKILLS_BAD_PARAMS module_name of
        Inl e \<Rightarrow> Inl e
      | Inr m \<Rightarrow>
      (case ensure_non_empty_string E_SKILLS_BAD_PARAMS op of
        Inl e \<Rightarrow> Inl e
      | Inr opn \<Rightarrow>
      (case (if params = None then Inr [] else ensure_json_object E_SKILLS_BAD_PARAMS params) of
        Inl e \<Rightarrow> Inl e
      | Inr ps \<Rightarrow>
          let op_name = op_key m opn;
              is_kernel_allowed = (op_name \<in> set kernel_allow);
              ctx0 = [(''actor'', JObj [(''role'', JStr ''system''),
                                         (''source'', JStr (''skill:'' @ skill_id))])];
              ctx1 = (if is_kernel_allowed
                      then AList.update ''kernel_cap'' (JStr (mgr_kernel_cap st)) ctx0 else ctx0)
          in (case meta of
                None \<Rightarrow>
                  Inr \<lparr> x_module = m, x_op = opn,
                        x_params = Some (JObj (AList.update ''_ctx'' (JObj ctx1) ps)), x_ctx = None \<rparr>
              | Some mv \<Rightarrow>
                  if has_function mv then Inl E_SKILLS_BAD_PARAMS
                  else Inr \<lparr> x_module = m, x_op = opn,
                             x_params = Some (JObj (AList.update ''_ctx''
                                 (JObj (AList.update ''meta'' mv ctx1)) ps)),
                             x_ctx = None \<rparr>)))))"

text \<open>
  \<open>registerModule\<close> of the same context. \<open>already_loaded\<close> is what the lookup in the
  module registry gave (a lookup that throws counts as not loaded). The call of
  \<open>_x.loadModule\<close> changes the registry, which is outside the manager.
\<close>

fun nullish_or :: "jv option \<Rightarrow> jv option \<Rightarrow> jv option" where
  "nullish_or None b = b"
| "nullish_or (Some JNull) b = b"
| "nullish_or (Some v) b = Some v"

fun truthy_id :: "string option \<Rightarrow> bool" where
  "truthy_id None = False"
| "truthy_id (Some s) = (s \<noteq> [])"

definition ctx_registerModule :: "string \<Rightarrow> world \<Rightarrow> module_instance \<Rightarrow> bool \<Rightarrow> xerror + world" where
  "ctx_registerModule skill_id st inst already_loaded =
     (if \<not> is_object inst then Inl E_SKILLS_BAD_MODULE
      else (case ensure_non_empty_string E_SKILLS_BAD_PARAMS
                   (nullish_or (own_name inst) (ctor_name inst)) of
        Inl e \<Rightarrow> Inl e
      | Inr module_name \<Rightarrow>
          let mapped_skill = module_to_skill st module_name in
          if truthy_id mapped_skill \<and> mapped_skill \<noteq> Some skill_id
            then Inl E_SKILLS_MODULE_CONFLICT
          else if already_loaded \<and> \<not> truthy_id mapped_skill
            then Inl E_SKILLS_MODULE_CONFLICT
          else Inr (st\<lparr> skill_to_modules :=
                           (skill_to_modules st)(skill_id \<mapsto>
                              set_add module_name
                                (case skill_to_modules st skill_id of None \<Rightarrow> [] | Some ms \<Rightarrow> ms)),
                         module_to_skill := (module_to_skill st)(module_name \<mapsto> skill_id) \<rparr>)))"

subsection \<open>Defaults bootstrap of the manager\<close>

text \<open>
  The manager reaches the settings module through the dispatcher only. \<open>clone_json\<close> is
  \<open>structuredClone\<close>: it throws on a function and copies own enumerable properties.
\<close>

definition and_then :: "xerror + 'a \<Rightarrow> ('a \<Rightarrow> xerror + 'b) \<Rightarrow> xerror + 'b" where
  "and_then m f = (case m of Inl e \<Rightarrow> Inl e | Inr x \<Rightarrow> f x)"

fun clone_value :: "jv \<Rightarrow> jv" where
  "clone_value (JArr items) = JArr (map clone_value items)"
| "clone_value (JObj entries) = JObj (map (\<lambda>(key, child). (key, clone_value child)) entries)"
| "clone_value JProto = JObj []"
| "clone_value v = v"

definition clone_json :: "jv \<Rightarrow> xerror + jv" where
  "clone_json v = (if has_function v then Inl (External ''DataCloneError'') else Inr (clone_value v))"

definition dispatch :: "env \<Rightarrow> world \<Rightarrow> XCommandData \<Rightarrow> (xerror + jv option) \<times> world" where
  "dispatch ev st xcmd =
     (case x_execute ev st xcmd of
        (out, store) \<Rightarrow> (out, st\<lparr> settings_store := store \<rparr>))"

definition kernel_ctx :: "world \<Rightarrow> jv" where
  "kernel_ctx st =
     JObj [(''kernel_cap'', JStr (mgr_kernel_cap st)),
           (''actor'', JObj [(''role'', JStr ''system''), (''source'', JStr ''skill-manager'')])]"

definition settings_cmd :: "string \<Rightarrow> dict \<Rightarrow> XCommandData" where
  "settings_cmd op params =
     \<lparr> x_module = ''settings'', x_op = op, x_params = Some (JObj params), x_ctx = None \<rparr>"

text \<open>\<open>is_plain_object(meta?.defaults) ? clone_json(meta.defaults) : {}\<close>\<close>

definition meta_defaults :: "SkillSettingsMeta option \<Rightarrow> xerror + dict" where
  "meta_defaults meta =
     (case (case meta of None \<Rightarrow> None | Some m \<Rightarrow> defaults m) of
        None \<Rightarrow> Inr []
      | Some d \<Rightarrow>
          if is_plain_object (Some d)
          then (case clone_json d of Inl e \<Rightarrow> Inl e | Inr c \<Rightarrow> Inr (own_entries c))
          else Inr [])"

text \<open>\<open>Object.prototype.hasOwnProperty.call(value, key)\<close> on a plain object.\<close>

fun has_own_property :: "jv \<Rightarrow> string \<Rightarrow> bool" where
  "has_own_property (JObj entries) key = (map_of entries key \<noteq> None)"
| "has_own_property JProto key = (js_get JProto key \<noteq> None)"
| "has_own_property v key = False"

definition plain_or_empty :: "jv option \<Rightarrow> jv" where
  "plain_or_empty v = (case v of None \<Rightarrow> JObj [] | Some x \<Rightarrow> if is_plain_object (Some x) then x else JObj [])"

definition bootstrap_skill_settings_defaults ::
  "env \<Rightarrow> world \<Rightarrow> string \<Rightarrow> SkillSettingsMeta option \<Rightarrow> xerror option \<times> world" where
  "bootstrap_skill_settings_defaults ev st skill_id meta =
     (case dispatch ev st (settings_cmd ''get_skill''
                 [(''skill_id'', JStr skill_id), (''include_masked'', JBool False),
                  (''include_schema'', JBool False), (''_ctx'', kernel_ctx st)]) of
        (Inl e, st1) \<Rightarrow> (Some e, st1)
      | (Inr ignored, st1) \<Rightarrow>
      (case meta_defaults meta of
        Inl e \<Rightarrow> (Some e, st1)
      | Inr dflts \<Rightarrow>
          if length dflts = 0 then (None, st1)
          else
      (case dispatch ev st1 (settings_cmd ''get''
                 [(''key'', JStr ''skills''), (''_ctx'', kernel_ctx st1)]) of
        (Inl e, st2) \<Rightarrow> (Some e, st2)
      | (Inr existing, st2) \<Rightarrow>
          let existing_data = plain_or_empty existing;
              skills_bucket = plain_or_empty (js_get existing_data ''value'');
              has_stored = has_own_property skills_bucket skill_id
          in if has_stored then (None, st2)
             else (case dispatch ev st2 (settings_cmd ''set_skill''
                           [(''skill_id'', JStr skill_id), (''patch'', JObj dflts),
                            (''_ctx'', kernel_ctx st2)]) of
                     (Inl e, st3) \<Rightarrow> (Some e, st3)
                   | (Inr ignored, st3) \<Rightarrow> (None, st3)))))"

subsection \<open>Lifecycle of a skill\<close>

text \<open>
  \<open>Array.prototype.sort\<close> with the comparator \<open>a.localeCompare(b)\<close> is a stable sort
  by the order \<open>locale_le\<close>; insertion from the right is one.
\<close>

fun insort_by :: "(string \<Rightarrow> string \<Rightarrow> bool) \<Rightarrow> string \<Rightarrow> string list \<Rightarrow> string list" where
  "insort_by le x [] = [x]"
| "insort_by le x (y # ys) = (if le x y then x # y # ys else y # insort_by le x ys)"

definition sort_by :: "(string \<Rightarrow> string \<Rightarrow> bool) \<Rightarrow> string list \<Rightarrow> string list" where
  "sort_by le xs = foldr (insort_by le) xs []"

definition sorted_enabled :: "env \<Rightarrow> world \<Rightarrow> string list" where
  "sorted_enabled ev st = sort_by (locale_le ev) (enabled st)"

definition modules_of :: "world \<Rightarrow> string \<Rightarrow> string list" where
  "modules_of st skill_id = (case skill_to_modules st skill_id of None \<Rightarrow> [] | Some ms \<Rightarrow> ms)"

text \<open>
  The message of an error: the text an outside error carries, and for an \<open>XError\<close> of
  this core its \<open>_message\<close>, which the environment supplies.
\<close>

definition to_error_message :: "env \<Rightarrow> xerror \<Rightarrow> string" where
  "to_error_message ev err = (case err of External msg \<Rightarrow> msg | _ \<Rightarrow> message_of ev err)"

definition assert_allowlisted :: "world \<Rightarrow> string \<Rightarrow> xerror + unit" where
  "assert_allowlisted st skill_id =
     (if skill_id \<notin> set (allow (config st)) then Inl E_SKILLS_NOT_ALLOWLISTED else Inr ())"

text \<open>
  Running a hook: its registrations in order, the first failure thrown on; then its own
  throw. The state returned with an error is the state at the throw.
\<close>

fun run_registers :: "string \<Rightarrow> world \<Rightarrow> (module_instance \<times> bool) list \<Rightarrow> xerror option \<times> world" where
  "run_registers skill_id st [] = (None, st)"
| "run_registers skill_id st ((inst, already_loaded) # rest) =
     (case ctx_registerModule skill_id st inst already_loaded of
        Inl e \<Rightarrow> (Some e, st)
      | Inr st' \<Rightarrow> run_registers skill_id st' rest)"

definition run_hook :: "string \<Rightarrow> world \<Rightarrow> hook_script \<Rightarrow> xerror option \<times> world" where
  "run_hook skill_id st hook =
     (case run_registers skill_id st (registers hook) of
        (Some e, st') \<Rightarrow> (Some e, st')
      | (None, st') \<Rightarrow> (map_option External (throws hook), st'))"

text \<open>
  \<open>call_module_hooks\<close> dispatches \<open>enable\<close> or \<open>disable\<close> to every module the skill
  owns and catches every error, so nothing of it reaches the manager but what the
  dispatcher does to the settings store.
\<close>

fun hooks_loop :: "env \<Rightarrow> world \<Rightarrow> string \<Rightarrow> string \<Rightarrow> string list \<Rightarrow> world" where
  "hooks_loop ev st skill_id op [] = st"
| "hooks_loop ev st skill_id op (module_name # rest) =
     hooks_loop ev
       (snd (dispatch ev st
          \<lparr> x_module = module_name, x_op = op,
            x_params = Some (JObj [(''reason'', JStr (''skills.'' @ op)),
                                   (''skill_id'', JStr skill_id),
                                   (''_ctx'', kernel_ctx st)]),
            x_ctx = None \<rparr>))
       skill_id op rest"

definition call_module_hooks :: "env \<Rightarrow> world \<Rightarrow> string \<Rightarrow> string \<Rightarrow> world" where
  "call_module_hooks ev st skill_id op = hooks_loop ev st skill_id op (modules_of st skill_id)"

definition set_error_state :: "env \<Rightarrow> world \<Rightarrow> string \<Rightarrow> string \<Rightarrow> string option \<Rightarrow> world" where
  "set_error_state ev st skill_id error_message src =
     (let existing = loaded st skill_id;
          runtime_record = runtime_by_skill st skill_id;
          modules = sort_by (locale_le ev) (modules_of st skill_id)
      in st\<lparr> loaded := (loaded st)(skill_id \<mapsto>
           \<lparr> ls_id = skill_id,
             ls_version = or_else (map_option rt_version runtime_record)
                                  (case existing of None \<Rightarrow> None | Some r \<Rightarrow> ls_version r),
             ls_enabled = False,
             ls_status = Error,
             ls_error = Some error_message,
             ls_source = or_else src
                           (or_else (case existing of None \<Rightarrow> None | Some r \<Rightarrow> ls_source r)
                                    (map_option rt_source runtime_record)),
             ls_capabilities = or_else (map_option rt_capabilities runtime_record)
                                  (case existing of None \<Rightarrow> None | Some r \<Rightarrow> ls_capabilities r),
             ls_modules_registered = modules \<rparr>) \<rparr>)"

definition has_status :: "world \<Rightarrow> string \<Rightarrow> skill_status \<Rightarrow> bool" where
  "has_status st skill_id status =
     (case loaded st skill_id of None \<Rightarrow> False | Some r \<Rightarrow> ls_status r = status)"

definition empty_meta :: SkillSettingsMeta where
  "empty_meta = \<lparr> defaults = None, sensitive = None \<rparr>"

text \<open>\<open>descriptor.settings_meta ? clone_json(descriptor.settings_meta) : {}\<close>\<close>

definition clone_settings_meta :: "SkillSettingsMeta option \<Rightarrow> xerror + SkillSettingsMeta" where
  "clone_settings_meta meta =
     (case meta of
        None \<Rightarrow> Inr empty_meta
      | Some m \<Rightarrow>
          if (case defaults m of None \<Rightarrow> False | Some d \<Rightarrow> has_function d)
             \<or> (case sensitive m of None \<Rightarrow> False | Some s \<Rightarrow> has_function s)
          then Inl (External ''DataCloneError'')
          else Inr \<lparr> defaults = map_option clone_value (defaults m),
                     sensitive = map_option clone_value (sensitive m) \<rparr>)"

text \<open>The body of the \<open>try\<close> block of the full enable path.\<close>

definition enable_body ::
  "env \<Rightarrow> world \<Rightarrow> string \<Rightarrow> skill_descriptor \<Rightarrow> string \<Rightarrow> xerror option \<times> world" where
  "enable_body ev st skill_id descriptor src =
     (let st1 = st\<lparr> activating := set_add skill_id (activating st) \<rparr>
      in (case clone_settings_meta (d_settings_meta descriptor) of
            Inl e \<Rightarrow> (Some e, st1)
          | Inr cloned \<Rightarrow>
      let st2 = st1\<lparr> settings_meta_by_skill := (settings_meta_by_skill st1)(skill_id \<mapsto> cloned) \<rparr>
      in (case bootstrap_skill_settings_defaults ev st2 skill_id (d_settings_meta descriptor) of
            (Some e, st3) \<Rightarrow> (Some e, st3)
          | (None, st3) \<Rightarrow>
              (case run_hook skill_id st3 (d_on_enable descriptor) of
                 (Some e, st4) \<Rightarrow> (Some e, st4)
               | (None, st4) \<Rightarrow>
                   let st5 = st4\<lparr> enabled := set_add skill_id (enabled st4) \<rparr>;
                       modules = sort_by (locale_le ev) (modules_of st5 skill_id);
                       st6 = st5\<lparr> runtime_by_skill := (runtime_by_skill st5)(skill_id \<mapsto>
                               \<lparr> rt_id = skill_id, rt_version = d_version descriptor,
                                 rt_kind = d_kind descriptor,
                                 rt_capabilities = d_capabilities descriptor,
                                 rt_source = src,
                                 rt_on_disable = d_on_disable descriptor \<rparr>) \<rparr>
                   in (None, st6\<lparr> loaded := (loaded st6)(skill_id \<mapsto>
                               \<lparr> ls_id = skill_id, ls_version = Some (d_version descriptor),
                                 ls_enabled = True, ls_status = Loaded, ls_error = None,
                                 ls_source = Some src,
                                 ls_capabilities = Some (d_capabilities descriptor),
                                 ls_modules_registered = modules \<rparr>) \<rparr>)))))"

definition enable_skill :: "env \<Rightarrow> world \<Rightarrow> string \<Rightarrow> xerror option \<times> world" where
  "enable_skill ev st skill_id =
     (case assert_allowlisted st skill_id of
        Inl e \<Rightarrow> (Some e, st)
      | Inr ok \<Rightarrow>
          if has_status st skill_id Loaded \<and> skill_id \<in> set (enabled st) then (None, st)
          else if has_status st skill_id Disabled \<and> runtime_by_skill st skill_id \<noteq> None then
            (case bootstrap_skill_settings_defaults ev st skill_id (settings_meta_by_skill st skill_id) of
               (Some e, st1) \<Rightarrow> (Some e, st1)
             | (None, st1) \<Rightarrow>
                 let st2 = call_module_hooks ev st1 skill_id ''enable'';
                     st3 = st2\<lparr> enabled := set_add skill_id (enabled st2) \<rparr>;
                     existing = loaded st3 skill_id;
                     runtime_record = runtime_by_skill st3 skill_id;
                     modules = (case runtime_record of None \<Rightarrow> [] | Some r \<Rightarrow> modules_of st3 skill_id)
                 in (None, st3\<lparr> loaded := (loaded st3)(skill_id \<mapsto>
                        \<lparr> ls_id = skill_id,
                          ls_version = map_option rt_version runtime_record,
                          ls_enabled = True, ls_status = Loaded, ls_error = None,
                          ls_source = or_else (case existing of None \<Rightarrow> None | Some r \<Rightarrow> ls_source r)
                                              (map_option rt_source runtime_record),
                          ls_capabilities = map_option rt_capabilities runtime_record,
                          ls_modules_registered = sort_by (locale_le ev) modules \<rparr>) \<rparr>))
          else
            (case load_skill ev skill_id of
               Inl e \<Rightarrow> (Some e, st)
             | Inr (descriptor, src) \<Rightarrow>
                 (case enable_body ev st skill_id descriptor src of
                    (None, st') \<Rightarrow> (None, st'\<lparr> activating := set_delete skill_id (activating st') \<rparr>)
                  | (Some err, st') \<Rightarrow>
                      let st1 = st'\<lparr> enabled := set_delete skill_id (enabled st') \<rparr>;
                          st2 = set_error_state ev st1 skill_id (to_error_message ev err) (Some src);
                          st3 = st2\<lparr> settings_meta_by_skill := (settings_meta_by_skill st2)(skill_id := None) \<rparr>
                      in (Some err, st3\<lparr> activating := set_delete skill_id (activating st3) \<rparr>))))"

definition disable_skill :: "env \<Rightarrow> world \<Rightarrow> string \<Rightarrow> xerror option \<times> world" where
  "disable_skill ev st skill_id =
     (case assert_allowlisted st skill_id of
        Inl e \<Rightarrow> (Some e, st)
      | Inr ok \<Rightarrow>
          let runtime_record = runtime_by_skill st skill_id;
              st1 = st\<lparr> enabled := set_delete skill_id (enabled st) \<rparr>;
              st2 = (case runtime_record of
                       None \<Rightarrow> st1
                     | Some r \<Rightarrow> (case rt_on_disable r of
                                    None \<Rightarrow> st1
                                  | Some hook \<Rightarrow> snd (run_hook skill_id st1 hook)));
              st3 = call_module_hooks ev st2 skill_id ''disable'';
              modules = sort_by (locale_le ev) (modules_of st3 skill_id);
              existing = loaded st3 skill_id
          in (None, st3\<lparr> loaded := (loaded st3)(skill_id \<mapsto>
                 \<lparr> ls_id = skill_id,
                   ls_version = or_else (map_option rt_version runtime_record)
                                        (case existing of None \<Rightarrow> None | Some r \<Rightarrow> ls_version r),
                   ls_enabled = False, ls_status = Disabled, ls_error = None,
                   ls_source = or_else (case existing of None \<Rightarrow> None | Some r \<Rightarrow> ls_source r)
                                       (map_option rt_source runtime_record),
                   ls_capabilities = or_else (map_option rt_capabilities runtime_record)
                                        (case existing of None \<Rightarrow> None | Some r \<Rightarrow> ls_capabilities r),
                   ls_modules_registered = modules \<rparr>) \<rparr>))"

subsection \<open>The configuration file\<close>

text \<open>\<open>is_plain_object(v) ? v : {}\<close>, read at the fixed keys of the configuration.\<close>

definition obj_or_empty :: "jv option \<Rightarrow> dict" where
  "obj_or_empty v = (case v of Some (JObj entries) \<Rightarrow> entries | _ \<Rightarrow> [])"

definition DEFAULT_AGENT_CONFIG :: AgentConfig where
  "DEFAULT_AGENT_CONFIG = \<lparr> allow = [], cfg_enabled = [], node_modules = True, local_paths = [] \<rparr>"

definition read_agent_config :: "world \<Rightarrow> xerror + AgentConfig" where
  "read_agent_config st =
     (case config_file st of
        Missing \<Rightarrow> Inr \<lparr> allow = [], cfg_enabled = [], node_modules = True, local_paths = [] \<rparr>
      | Unreadable msg \<Rightarrow> Inl (External msg)
      | Content parsed \<Rightarrow>
          if \<not> is_plain_object (Some parsed) then Inl E_SKILLS_BAD_CONFIG
          else
            let raw_skills = obj_or_empty (get_prop (Some parsed) ''skills'');
                allow_list = normalize_string_array (map_of raw_skills ''allow'');
                enabled_list = filter (\<lambda>skill_id. skill_id \<in> set allow_list)
                                 (normalize_string_array (map_of raw_skills ''enabled''));
                raw_resolve = obj_or_empty (map_of raw_skills ''resolve'')
            in Inr \<lparr> allow = allow_list,
                     cfg_enabled = enabled_list,
                     node_modules = (case map_of raw_resolve ''node_modules'' of
                                       None \<Rightarrow> True
                                     | Some v \<Rightarrow> v = JBool True),
                     local_paths = normalize_string_array (map_of raw_resolve ''local_paths'') \<rparr>)"

definition str_array :: "string list \<Rightarrow> jv" where
  "str_array xs = JArr (map JStr xs)"

text \<open>
  \<open>persist_enabled_to_agent_config\<close>: the in-memory configuration takes the new enabled
  list first; then the file is read (a missing file is an empty document), the
  \<open>skills\<close> section is rebuilt over what the file had, and the file is written.
\<close>

definition persisted_document :: "AgentConfig \<Rightarrow> string list \<Rightarrow> dict \<Rightarrow> dict" where
  "persisted_document cfg enabled_ids parsed =
     (let existing_skills = obj_or_empty (map_of parsed ''skills'');
          existing_resolve = obj_or_empty (map_of existing_skills ''resolve'');
          new_resolve = AList.update ''local_paths'' (str_array (local_paths cfg))
                          (AList.update ''node_modules'' (JBool (node_modules cfg)) existing_resolve);
          new_skills = AList.update ''resolve'' (JObj new_resolve)
                         (AList.update ''enabled'' (str_array enabled_ids)
                            (AList.update ''allow'' (str_array (allow cfg)) existing_skills))
      in AList.update ''skills'' (JObj new_skills) parsed)"

definition persist_enabled_to_agent_config :: "env \<Rightarrow> world \<Rightarrow> xerror option \<times> world" where
  "persist_enabled_to_agent_config ev st =
     (let enabled_ids = filter (\<lambda>skill_id. skill_id \<in> set (allow (config st))) (sorted_enabled ev st);
          st1 = st\<lparr> config := (config st)\<lparr> cfg_enabled := enabled_ids \<rparr> \<rparr>
      in (case config_file st1 of
            Unreadable msg \<Rightarrow> (Some (External msg), st1)
          | file \<Rightarrow>
              let parsed = (case file of Content (JObj decoded) \<Rightarrow> decoded | _ \<Rightarrow> [])
              in (case write_fault ev of
                    Some e \<Rightarrow> (Some e, st1)
                  | None \<Rightarrow>
                      (None, st1\<lparr> config_file :=
                         Content (JObj (persisted_document (config st1) enabled_ids parsed)) \<rparr>))))"

subsection \<open>Commands\<close>

definition command_id :: "XCommandData \<Rightarrow> xerror + string" where
  "command_id xcmd =
     and_then (ensure_params E_SKILLS_BAD_PARAMS (x_params xcmd)) (\<lambda>params.
       ensure_non_empty_string E_SKILLS_BAD_PARAMS (map_of params ''id''))"

definition enable_impl ::
  "env \<Rightarrow> world \<Rightarrow> XCommandData \<Rightarrow> (xerror + LoadedSkillRecord option) \<times> world" where
  "enable_impl ev st xcmd =
     (case requireKernelCapOrActorRole (guard_secret ev) (readCommandCtx xcmd) ''admin'' of
        Inl e \<Rightarrow> (Inl e, st)
      | Inr ok \<Rightarrow>
      (case command_id xcmd of
        Inl e \<Rightarrow> (Inl e, st)
      | Inr skill_id \<Rightarrow>
          let was_enabled = (skill_id \<in> set (enabled st))
          in (case enable_skill ev st skill_id of
                (Some e, st1) \<Rightarrow> (Inl e, st1)
              | (None, st1) \<Rightarrow>
                  (case persist_enabled_to_agent_config ev st1 of
                     (Some err, st2) \<Rightarrow>
                       (Inl E_SKILLS_PERSIST_FAILED,
                        if \<not> was_enabled then snd (disable_skill ev st2 skill_id) else st2)
                   | (None, st2) \<Rightarrow> (Inr (loaded st2 skill_id), st2)))))"

definition disable_impl ::
  "env \<Rightarrow> world \<Rightarrow> XCommandData \<Rightarrow> (xerror + LoadedSkillRecord option) \<times> world" where
  "disable_impl ev st xcmd =
     (case requireKernelCapOrActorRole (guard_secret ev) (readCommandCtx xcmd) ''admin'' of
        Inl e \<Rightarrow> (Inl e, st)
      | Inr ok \<Rightarrow>
      (case command_id xcmd of
        Inl e \<Rightarrow> (Inl e, st)
      | Inr skill_id \<Rightarrow>
          let was_enabled = (skill_id \<in> set (enabled st))
          in (case disable_skill ev st skill_id of
                (Some e, st1) \<Rightarrow> (Inl e, st1)
              | (None, st1) \<Rightarrow>
                  (case persist_enabled_to_agent_config ev st1 of
                     (Some err, st2) \<Rightarrow>
                       (Inl E_SKILLS_PERSIST_FAILED,
                        if was_enabled then snd (enable_skill ev st2 skill_id) else st2)
                   | (None, st2) \<Rightarrow> (Inr (loaded st2 skill_id), st2)))))"

text \<open>
  \<open>reload_enabled\<close>: the configuration is read again; every enabled skill that is no
  longer targeted is disabled (an error of \<open>disable_skill\<close> ends the command); every
  targeted skill is enabled, a failure recorded as the error state of that skill.
\<close>

fun reload_disable :: "env \<Rightarrow> world \<Rightarrow> string list \<Rightarrow> string list \<Rightarrow> xerror option \<times> world" where
  "reload_disable ev st target [] = (None, st)"
| "reload_disable ev st target (skill_id # rest) =
     (if skill_id \<notin> set target
      then (case disable_skill ev st skill_id of
              (Some e, st') \<Rightarrow> (Some e, st')
            | (None, st') \<Rightarrow> reload_disable ev st' target rest)
      else reload_disable ev st target rest)"

fun reload_enable :: "env \<Rightarrow> world \<Rightarrow> string list \<Rightarrow> world" where
  "reload_enable ev st [] = st"
| "reload_enable ev st (skill_id # rest) =
     (case enable_skill ev st skill_id of
        (None, st') \<Rightarrow> reload_enable ev st' rest
      | (Some err, st') \<Rightarrow>
          reload_enable ev (set_error_state ev st' skill_id (to_error_message ev err) None) rest)"

definition reload_enabled_impl :: "env \<Rightarrow> world \<Rightarrow> XCommandData \<Rightarrow> xerror option \<times> world" where
  "reload_enabled_impl ev st xcmd =
     (case requireKernelCap (guard_secret ev) (readCommandCtx xcmd) of
        Inl e \<Rightarrow> (Some e, st)
      | Inr ok \<Rightarrow>
      (case read_agent_config st of
        Inl e \<Rightarrow> (Some e, st)
      | Inr cfg \<Rightarrow>
          let st1 = st\<lparr> config := cfg \<rparr>
          in (case reload_disable ev st1 (cfg_enabled cfg) (enabled st1) of
                (Some e, st2) \<Rightarrow> (Some e, st2)
              | (None, st2) \<Rightarrow> (None, reload_enable ev st2 (cfg_enabled (config st2))))))"

text \<open>The manager as its constructor leaves it.\<close>

definition initial_world :: "string \<Rightarrow> file_state \<Rightarrow> dict \<Rightarrow> world" where
  "initial_world cap file store =
     \<lparr> config = DEFAULT_AGENT_CONFIG, enabled = [], activating = [],
       loaded = Map.empty, skill_to_modules = Map.empty, module_to_skill = Map.empty,
       runtime_by_skill = Map.empty, settings_meta_by_skill = Map.empty,
       mgr_kernel_cap = cap, config_file = file, settings_store = store \<rparr>"

subsection \<open>Reachable states and module ownership\<close>

text \<open>
  The states of the manager that can arise: the state the constructor leaves, then any
  sequence of the commands \<open>enable\<close>, \<open>disable\<close> and \<open>reload_enabled\<close> (with any
  behaviour of the collaborators), of calls of \<open>registerModule\<close> through the context of
  a skill (whatever the module registry answers), and of changes made from outside to
  the configuration file and the settings store. A skill id is never empty: an id
  reaches \<open>create_skill_context\<close> only from the allow-list, which
  \<open>normalize_string_array\<close> built.
\<close>

inductive reachable :: "world \<Rightarrow> bool" where
  init: "reachable (initial_world cap cfile store)"
| enable: "reachable st \<Longrightarrow> reachable (snd (enable_impl ev st xcmd))"
| disable: "reachable st \<Longrightarrow> reachable (snd (disable_impl ev st xcmd))"
| reload: "reachable st \<Longrightarrow> reachable (snd (reload_enabled_impl ev st xcmd))"
| register: "reachable st \<Longrightarrow> skill_id \<noteq> [] \<Longrightarrow>
             ctx_registerModule skill_id st (inst :: module_instance) already_loaded = Inr st' \<Longrightarrow>
             reachable st'"
| outside: "reachable st \<Longrightarrow> reachable (st\<lparr> config_file := cfile, settings_store := store \<rparr>)"

text \<open>
  The two ownership maps agree and no owner is the empty id; a module name is stored
  trimmed.
\<close>

definition is_trimmed :: "string \<Rightarrow> bool" where
  "is_trimmed s = (s \<noteq> [] \<and> trim s = s)"

definition ownership_inv :: "world \<Rightarrow> bool" where
  "ownership_inv st =
     ([] \<notin> set (allow (config st))
      \<and> (\<forall>m s. module_to_skill st m = Some s \<longrightarrow>
             s \<noteq> [] \<and> is_trimmed m \<and> m \<in> set (modules_of st s))
      \<and> (\<forall>s m. m \<in> set (modules_of st s) \<longrightarrow> module_to_skill st m = Some s))"

section \<open>Example states and environments\<close>

text \<open>
  One allow-listed skill \<open>s1\<close> that has been loaded before, an environment whose
  dispatcher and configuration write fail or not, and a command carrying the kernel
  capability.
\<close>

definition example_env :: "xerror option \<Rightarrow> xerror option \<Rightarrow> env" where
  "example_env settings_err write_err =
     \<lparr> locale_le = (\<lambda>a b. length a \<le> length b),
       load_skill = (\<lambda>skill_id. Inl E_SKILLS_RESOLVE_FAILED),
       x_execute = (\<lambda>st xcmd. (case settings_err of
                                      Some e \<Rightarrow> Inl e
                                    | None \<Rightarrow> Inr None, settings_store st)),
       message_of = (\<lambda>e. ''error''),
       write_fault = write_err,
       guard_secret = ''kcap_0123456789abcdef'' \<rparr>"

definition example_runtime :: SkillRuntimeRecord where
  "example_runtime =
     \<lparr> rt_id = ''s1'', rt_version = ''1.0.0'', rt_kind = Xbot,
       rt_capabilities = \<lparr> kernel_ops = Some (JArr [JStr ''channels.configure'']),
                           channels = Some (JArr []), network = None \<rparr>,
       rt_source = ''node_modules'', rt_on_disable = None \<rparr>"

definition example_world :: "string list \<Rightarrow> skill_status \<Rightarrow> world" where
  "example_world enabled_ids status =
     (initial_world ''kcap_0123456789abcdef'' Missing [])
       \<lparr> config := \<lparr> allow = [''s1''], cfg_enabled = enabled_ids, node_modules = True, local_paths = [] \<rparr>,
         enabled := enabled_ids,
         loaded := [''s1'' \<mapsto> \<lparr> ls_id = ''s1'', ls_version = Some ''1.0.0'',
                       ls_enabled = (status = Loaded), ls_status = status, ls_error = None,
                       ls_source = Some ''node_modules'', ls_capabilities = None,
                       ls_modules_registered = [] \<rparr>],
         runtime_by_skill := [''s1'' \<mapsto> example_runtime] \<rparr>"

definition example_cmd :: "string \<Rightarrow> XCommandData" where
  "example_cmd op =
     \<lparr> x_module = ''skills'', x_op = op,
       x_params = Some (JObj [(''id'', JStr ''s1''),
                              (''_ctx'', JObj [(''kernel_cap'', JStr ''kcap_0123456789abcdef'')])]),
       x_ctx = None \<rparr>"

lemmas ex_defs = example_env_def example_world_def example_cmd_def example_runtime_def initial_world_def
  DEFAULT_AGENT_CONFIG_def

lemmas eval_defs = requireKernelCapOrActorRole_def requireKernelCap_def requireActorRole_def
  readCommandCtx_def or_else_def string_field_def empty_ctx_def command_id_def and_then_def
  trim_eval enable_skill_def disable_skill_def assert_allowlisted_def has_status_def
  bootstrap_skill_settings_defaults_def dispatch_def settings_cmd_def kernel_ctx_def
  meta_defaults_def obj_or_empty_def call_module_hooks_def
  persist_enabled_to_agent_config_def sorted_enabled_def sort_by_def set_add_def set_delete_def
  modules_of_def Let_def rank_def

section \<open>Facts about the manager\<close>

subsection \<open>Trimmed strings\<close>

lemma is_trimmed_trim: "trim s \<noteq> [] \<Longrightarrow> is_trimmed (trim s)"
  by (simp add: is_trimmed_def trim_idem)

lemma normalize_loop_all:
  "list_all is_trimmed out \<Longrightarrow> distinct out \<Longrightarrow>
   list_all is_trimmed (normalize_loop items out) \<and> distinct (normalize_loop items out)"
  by (induction items out rule: normalize_loop.induct) (simp_all add: Let_def is_trimmed_trim)

lemma normalize_string_array_all:
  "list_all is_trimmed (normalize_string_array v) \<and> distinct (normalize_string_array v)"
  using normalize_loop_all[of "[]"]
  by (cases v rule: normalize_string_array.cases) simp_all

lemma normalize_string_array_nonempty: "[] \<notin> set (normalize_string_array v)"
  using normalize_string_array_all[of v] by (auto simp: list_all_iff is_trimmed_def)

subsection \<open>Frames\<close>

lemma and_then_Inr: "and_then m f = Inr y \<longleftrightarrow> (\<exists>x. m = Inr x \<and> f x = Inr y)"
  by (cases m) (auto simp: and_then_def)

lemma registerModule_frame:
  "ctx_registerModule skill_id st inst al = Inr st' \<Longrightarrow>
   enabled st' = enabled st \<and> config st' = config st \<and> activating st' = activating st
   \<and> loaded st' = loaded st \<and> runtime_by_skill st' = runtime_by_skill st
   \<and> settings_meta_by_skill st' = settings_meta_by_skill st
   \<and> config_file st' = config_file st \<and> settings_store st' = settings_store st
   \<and> mgr_kernel_cap st' = mgr_kernel_cap st"
  by (auto simp: ctx_registerModule_def Let_def split: if_splits sum.splits)

lemma run_registers_frame:
  "run_registers skill_id st rs = (r, st') \<Longrightarrow>
   enabled st' = enabled st \<and> config st' = config st \<and> activating st' = activating st
   \<and> loaded st' = loaded st \<and> runtime_by_skill st' = runtime_by_skill st
   \<and> settings_meta_by_skill st' = settings_meta_by_skill st
   \<and> config_file st' = config_file st \<and> settings_store st' = settings_store st
   \<and> mgr_kernel_cap st' = mgr_kernel_cap st"
proof (induction rs arbitrary: st)
  case Nil
  then show ?case by simp
next
  case (Cons a rs)
  obtain inst al where a: "a = (inst, al)" by (cases a)
  show ?case
  proof (cases "ctx_registerModule skill_id st inst al")
    case (Inl e)
    with Cons.prems a show ?thesis by simp
  next
    case (Inr st1)
    with Cons.prems a have "run_registers skill_id st1 rs = (r, st')" by simp
    from Cons.IH[OF this] registerModule_frame[OF Inr] show ?thesis by simp
  qed
qed

lemma run_hook_frame:
  "run_hook skill_id st hook = (r, st') \<Longrightarrow>
   enabled st' = enabled st \<and> config st' = config st \<and> activating st' = activating st
   \<and> loaded st' = loaded st \<and> runtime_by_skill st' = runtime_by_skill st
   \<and> settings_meta_by_skill st' = settings_meta_by_skill st
   \<and> config_file st' = config_file st \<and> settings_store st' = settings_store st
   \<and> mgr_kernel_cap st' = mgr_kernel_cap st"
proof -
  assume h: "run_hook skill_id st hook = (r, st')"
  obtain r0 st0 where rr: "run_registers skill_id st (registers hook) = (r0, st0)"
    by (cases "run_registers skill_id st (registers hook)")
  with h have "st' = st0" by (auto simp: run_hook_def split: option.splits)
  with run_registers_frame[OF rr] show ?thesis by simp
qed

lemma dispatch_frame:
  "dispatch ev st xcmd = (r, st') \<Longrightarrow> st' = st\<lparr> settings_store := settings_store st' \<rparr>"
  by (auto simp: dispatch_def split: prod.splits)

lemma store_update_twice:
  "st1 = st\<lparr> settings_store := a \<rparr> \<Longrightarrow> st2 = st1\<lparr> settings_store := settings_store st2 \<rparr> \<Longrightarrow>
   st2 = st\<lparr> settings_store := settings_store st2 \<rparr>"
  by simp

lemma bootstrap_frame:
  "bootstrap_skill_settings_defaults ev st skill_id meta = (r, st') \<Longrightarrow>
   st' = st\<lparr> settings_store := settings_store st' \<rparr>"
proof -
  assume b: "bootstrap_skill_settings_defaults ev st skill_id meta = (r, st')"
  obtain r1 st1 where d1: "dispatch ev st (settings_cmd ''get_skill''
                 [(''skill_id'', JStr skill_id), (''include_masked'', JBool False),
                  (''include_schema'', JBool False), (''_ctx'', kernel_ctx st)]) = (r1, st1)"
    by (cases "dispatch ev st (settings_cmd ''get_skill''
                 [(''skill_id'', JStr skill_id), (''include_masked'', JBool False),
                  (''include_schema'', JBool False), (''_ctx'', kernel_ctx st)])")
  note f1 = dispatch_frame [OF d1]
  obtain r2 st2 where d2: "dispatch ev st1 (settings_cmd ''get''
                 [(''key'', JStr ''skills''), (''_ctx'', kernel_ctx st1)]) = (r2, st2)"
    by (cases "dispatch ev st1 (settings_cmd ''get''
                 [(''key'', JStr ''skills''), (''_ctx'', kernel_ctx st1)])")
  note f2 = store_update_twice [OF f1 dispatch_frame [OF d2]]
  have f3: "st3 = st\<lparr> settings_store := settings_store st3 \<rparr>"
    if "dispatch ev st2 c = (r3, st3)" for c r3 st3
    using store_update_twice [OF f2 dispatch_frame [OF that]] .
  from b d1 d2 have "st' = st1 \<or> st' = st2 \<or> (\<exists>c r3. dispatch ev st2 c = (r3, st'))"
    unfolding bootstrap_skill_settings_defaults_def Let_def
    by (auto split: sum.splits if_splits prod.splits)
  with f1 f2 f3 show ?thesis by blast
qed

lemma hooks_loop_frame:
  "hooks_loop ev st skill_id op ms = st\<lparr> settings_store := settings_store (hooks_loop ev st skill_id op ms) \<rparr>"
proof (induction ms arbitrary: st)
  case Nil
  show ?case by simp
next
  case (Cons m ms)
  let ?c = "\<lparr> x_module = m, x_op = op,
            x_params = Some (JObj [(''reason'', JStr (''skills.'' @ op)),
                                   (''skill_id'', JStr skill_id),
                                   (''_ctx'', kernel_ctx st)]),
            x_ctx = None \<rparr>"
  have "snd (dispatch ev st ?c) = st\<lparr> settings_store := settings_store (snd (dispatch ev st ?c)) \<rparr>"
    using dispatch_frame [OF surjective_pairing] .
  from store_update_twice [OF this Cons.IH] show ?case by simp
qed

lemma call_module_hooks_frame:
  "\<exists>s. call_module_hooks ev st skill_id op = st\<lparr> settings_store := s \<rparr>"
  unfolding call_module_hooks_def using hooks_loop_frame by blast

lemma call_module_hooks_sel [simp]:
  "enabled (call_module_hooks ev st skill_id op) = enabled st"
  "config (call_module_hooks ev st skill_id op) = config st"
  "activating (call_module_hooks ev st skill_id op) = activating st"
  "loaded (call_module_hooks ev st skill_id op) = loaded st"
  "skill_to_modules (call_module_hooks ev st skill_id op) = skill_to_modules st"
  "module_to_skill (call_module_hooks ev st skill_id op) = module_to_skill st"
  "runtime_by_skill (call_module_hooks ev st skill_id op) = runtime_by_skill st"
  "settings_meta_by_skill (call_module_hooks ev st skill_id op) = settings_meta_by_skill st"
  "mgr_kernel_cap (call_module_hooks ev st skill_id op) = mgr_kernel_cap st"
  "config_file (call_module_hooks ev st skill_id op) = config_file st"
  using call_module_hooks_frame [of ev st skill_id op] by auto

lemma set_set_add [simp]: "set (set_add x xs) = insert x (set xs)"
  by (auto simp: set_add_def)

lemma set_set_delete [simp]: "set (set_delete x xs) = set xs - {x}"
  by (auto simp: set_delete_def)

lemma enable_body_enabled:
  "enable_body ev st skill_id descriptor src = (None, st') \<Longrightarrow>
   set (enabled st') = insert skill_id (set (enabled st)) \<and> config st' = config st"
proof -
  assume e: "enable_body ev st skill_id descriptor src = (None, st')"
  from e obtain cloned where c: "clone_settings_meta (d_settings_meta descriptor) = Inr cloned"
    by (auto simp: enable_body_def Let_def split: sum.splits)
  let ?st2 = "st\<lparr> activating := set_add skill_id (activating st),
      settings_meta_by_skill := (settings_meta_by_skill st)(skill_id \<mapsto> cloned) \<rparr>"
  obtain rb st3 where b: "bootstrap_skill_settings_defaults ev ?st2 skill_id (d_settings_meta descriptor) = (rb, st3)"
    by (cases "bootstrap_skill_settings_defaults ev ?st2 skill_id (d_settings_meta descriptor)")
  from bootstrap_frame[OF b] have "enabled st3 = enabled ?st2 \<and> config st3 = config ?st2"
    by (metis world.select_convs(1,2) world.surjective world.update_convs(11))
  then have f3: "enabled st3 = enabled st" "config st3 = config st" by auto
  obtain r4 st4 where h: "run_hook skill_id st3 (d_on_enable descriptor) = (r4, st4)"
    by (cases "run_hook skill_id st3 (d_on_enable descriptor)")
  from run_hook_frame[OF h] f3 have f4: "enabled st4 = enabled st" "config st4 = config st" by auto
  from e c b have rb: "rb = None" by (auto simp: enable_body_def Let_def split: option.splits)
  from e c b h rb have "r4 = None" by (auto simp: enable_body_def Let_def split: option.splits)
  with e c b h rb f4 show ?thesis by (auto simp: enable_body_def Let_def)
qed

lemma enable_skill_enabled:
  "enable_skill ev st skill_id = (None, st') \<Longrightarrow>
   set (enabled st') = insert skill_id (set (enabled st)) \<and> config st' = config st"
proof -
  assume e: "enable_skill ev st skill_id = (None, st')"
  then have al: "assert_allowlisted st skill_id = Inr ()"
    by (auto simp: enable_skill_def split: sum.splits)
  show ?thesis
  proof (cases "has_status st skill_id Loaded \<and> skill_id \<in> set (enabled st)")
    case True
    with e al show ?thesis by (auto simp: enable_skill_def)
  next
    case nl: False
    show ?thesis
    proof (cases "has_status st skill_id Disabled \<and> runtime_by_skill st skill_id \<noteq> None")
      case True
      obtain rb st1 where b: "bootstrap_skill_settings_defaults ev st skill_id (settings_meta_by_skill st skill_id) = (rb, st1)"
        by (cases "bootstrap_skill_settings_defaults ev st skill_id (settings_meta_by_skill st skill_id)")
      from e al nl True b have rb: "rb = None"
        by (auto simp: enable_skill_def split: option.splits)
      from bootstrap_frame[OF b] obtain s where "st1 = st\<lparr> settings_store := s \<rparr>" by blast
      with e al nl True b rb show ?thesis
        by (auto simp: enable_skill_def Let_def)
    next
      case False
      with e al nl obtain descriptor src where l: "load_skill ev skill_id = Inr (descriptor, src)"
        by (auto simp: enable_skill_def split: sum.splits)
      obtain r st0 where eb: "enable_body ev st skill_id descriptor src = (r, st0)"
        by (cases "enable_body ev st skill_id descriptor src")
      with e al nl False l have r: "r = None" and st': "st' = st0\<lparr> activating := set_delete skill_id (activating st0) \<rparr>"
        by (auto simp: enable_skill_def Let_def split: option.splits)
      from enable_body_enabled[OF eb[unfolded r]] st' show ?thesis by simp
    qed
  qed
qed

lemma disable_skill_result:
  "skill_id \<in> set (allow (config st)) \<Longrightarrow>
   \<exists>st'. disable_skill ev st skill_id = (None, st')
        \<and> set (enabled st') = set (enabled st) - {skill_id} \<and> config st' = config st"
proof -
  assume a: "skill_id \<in> set (allow (config st))"
  let ?st1 = "st\<lparr> enabled := set_delete skill_id (enabled st) \<rparr>"
  have hook: "\<And>h. enabled (snd (run_hook skill_id ?st1 h)) = enabled ?st1
                \<and> config (snd (run_hook skill_id ?st1 h)) = config ?st1"
    using run_hook_frame[OF surjective_pairing] by blast
  show ?thesis
    using a hook
    by (auto simp: disable_skill_def assert_allowlisted_def Let_def
        split: option.splits)
qed

lemma disable_skill_enabled:
  "disable_skill ev st skill_id = (None, st') \<Longrightarrow>
   set (enabled st') = set (enabled st) - {skill_id} \<and> config st' = config st"
proof -
  assume d: "disable_skill ev st skill_id = (None, st')"
  then have "skill_id \<in> set (allow (config st))"
    by (auto simp: disable_skill_def assert_allowlisted_def split: if_splits)
  from disable_skill_result[OF this, of ev] d show ?thesis by auto
qed

lemma persist_frame:
  "persist_enabled_to_agent_config ev st = (r, st') \<Longrightarrow>
   enabled st' = enabled st \<and> allow (config st') = allow (config st)
   \<and> loaded st' = loaded st \<and> runtime_by_skill st' = runtime_by_skill st
   \<and> settings_meta_by_skill st' = settings_meta_by_skill st \<and> settings_store st' = settings_store st"
  by (auto simp: persist_enabled_to_agent_config_def Let_def split: file_state.splits option.splits)

lemma example_guard:
  "requireKernelCapOrActorRole (guard_secret (example_env a b)) (readCommandCtx (example_cmd op)) ''admin'' = Inr ()"
  by (simp add: ex_defs eval_defs)

lemma example_command_id: "command_id (example_cmd op) = Inr ''s1''"
  by (simp add: ex_defs eval_defs)

text \<open>
  C3, as the code has it. For a skill that is enabled or activating, a call of
  \<open>execute\<close> with non-blank module and op names, parameters that are absent or a
  function-free object, and a function-free \<open>meta\<close> is forwarded to the trimmed module
  and op, with no context at the root of the command; the context forwarded in the
  parameters holds the capability token if and only if
  \<open>module.op\<close>, built from the trimmed names, is in the skill's \<open>kernel_ops\<close> after
  normalisation (trimmed, without blanks and repetitions); and it always holds the actor
  of role \<open>system\<close> with source \<open>skill:<id>\<close>, whatever \<open>_ctx\<close> the skill put in the
  parameters.
\<close>

theorem capability_gate:
  assumes "skill_id \<in> set (enabled st) \<or> skill_id \<in> set (activating st)"
    and "module_name = Some (JStr m)" and "trim m \<noteq> []"
    and "op = Some (JStr opn)" and "trim opn \<noteq> []"
    and "params = None \<or> (\<exists>entries. params = Some (JObj entries) \<and> \<not> has_function (JObj entries))"
    and "meta = None \<or> (\<exists>mv. meta = Some mv \<and> \<not> has_function mv)"
  shows "\<exists>cmd ps ctx.
           ctx_execute st skill_id capabilities module_name op params meta = Inr cmd
         \<and> x_module cmd = trim m \<and> x_op cmd = trim opn \<and> x_ctx cmd = None
         \<and> x_params cmd = Some (JObj ps) \<and> map_of ps ''_ctx'' = Some (JObj ctx)
         \<and> map_of ctx ''kernel_cap'' =
             (if op_key (trim m) (trim opn) \<in> set (normalize_string_array (kernel_ops capabilities))
              then Some (JStr (mgr_kernel_cap st)) else None)
         \<and> map_of ctx ''actor'' =
             Some (JObj [(''role'', JStr ''system''), (''source'', JStr (''skill:'' @ skill_id))])"
proof -
  have en: "assert_skill_enabled_for_callback st skill_id = Inr ()"
    using assms(1) by (auto simp: assert_skill_enabled_for_callback_def)
  obtain ps where ps: "(if params = None then Inr [] else ensure_json_object E_SKILLS_BAD_PARAMS params) = Inr ps"
    using assms(6) by auto
  show ?thesis
  proof (cases meta)
    case None
    then show ?thesis
      using en ps assms(2-5)
      by (simp add: ctx_execute_def Let_def update_conv')
  next
    case (Some mv)
    with assms(7) have "\<not> has_function mv" by auto
    then show ?thesis
      using en ps assms(2-5) Some
      by (simp add: ctx_execute_def Let_def update_conv')
  qed
qed

theorem capability_gate_witness:
  "(\<exists>cmd ps ctx.
      ctx_execute (example_world [''s1''] Loaded) ''s1'' (rt_capabilities example_runtime)
        (Some (JStr ''channels'')) (Some (JStr ''configure''))
        (Some (JObj [(''_ctx'', JObj [(''kernel_cap'', JStr ''guess'')])])) None = Inr cmd
    \<and> x_module cmd = ''channels'' \<and> x_op cmd = ''configure'' \<and> x_ctx cmd = None
    \<and> x_params cmd = Some (JObj ps) \<and> map_of ps ''_ctx'' = Some (JObj ctx)
    \<and> map_of ctx ''kernel_cap'' = Some (JStr ''kcap_0123456789abcdef'')
    \<and> map_of ctx ''actor'' = Some (JObj [(''role'', JStr ''system''), (''source'', JStr ''skill:s1'')]))"
proof -
  have h1: "''s1'' \<in> set (enabled (example_world [''s1''] Loaded))
            \<or> ''s1'' \<in> set (activating (example_world [''s1''] Loaded))"
    by (simp add: ex_defs)
  have h3: "trim ''channels'' \<noteq> []" and h5: "trim ''configure'' \<noteq> []"
    by (simp_all add: trim_eval)
  have h6: "Some (JObj [(''_ctx'', JObj [(''kernel_cap'', JStr ''guess'')])]) = None
            \<or> (\<exists>entries. Some (JObj [(''_ctx'', JObj [(''kernel_cap'', JStr ''guess'')])]) = Some (JObj entries)
                 \<and> \<not> has_function (JObj entries))"
    by simp
  have h7: "(None :: jv option) = None \<or> (\<exists>mv. (None :: jv option) = Some mv \<and> \<not> has_function mv)"
    by simp
  from capability_gate [OF h1 refl h3 refl h5 h6 h7, of "rt_capabilities example_runtime"]
  show ?thesis
    by (simp add: ex_defs trim_eval op_key_def)
qed

text \<open>
  C3 as stated fails on a name with surrounding white space: the skill declares
  \<open>channels.configure\<close> and calls \<open>execute\<close> with the module name \<open>" channels"\<close>; the
  string \<open>" channels.configure"\<close> is not in its \<open>kernel_ops\<close>, yet the forwarded context
  holds the capability token, because the names are trimmed first.
\<close>

theorem capability_gate_untrimmed_counterexample:
  "''s1'' \<in> set (enabled (example_world [''s1''] Loaded))
   \<and> JStr (op_key '' channels'' ''configure'') \<notin> set [JStr ''channels.configure'']
   \<and> ctx_execute (example_world [''s1''] Loaded) ''s1''
        \<lparr> kernel_ops = Some (JArr [JStr ''channels.configure'']), channels = None, network = None \<rparr>
        (Some (JStr '' channels'')) (Some (JStr ''configure'')) None None
      = Inr \<lparr> x_module = ''channels'', x_op = ''configure'',
              x_params = Some (JObj [(''_ctx'',
                 JObj [(''actor'', JObj [(''role'', JStr ''system''), (''source'', JStr ''skill:s1'')]),
                       (''kernel_cap'', JStr ''kcap_0123456789abcdef'')])]),
              x_ctx = None \<rparr>"
  by (simp add: ex_defs ctx_execute_def assert_skill_enabled_for_callback_def trim_eval
      op_key_def)

text \<open>
  C8. A skill id that is not in the configured allow-list makes \<open>enable_skill\<close> fail with
  \<open>E_SKILLS_NOT_ALLOWLISTED\<close> and leaves the whole state of the manager, the enabled set
  included, as it was; so does the \<open>enable\<close> command for an authorised caller.
\<close>

theorem allowlist_gate:
  assumes "skill_id \<notin> set (allow (config st))"
  shows "enable_skill ev st skill_id = (Some E_SKILLS_NOT_ALLOWLISTED, st)
       \<and> (requireKernelCapOrActorRole (guard_secret ev) (readCommandCtx xcmd) ''admin'' = Inr ()
          \<and> command_id xcmd = Inr skill_id
          \<longrightarrow> enable_impl ev st xcmd = (Inl E_SKILLS_NOT_ALLOWLISTED, st))"
  using assms by (simp add: enable_skill_def assert_allowlisted_def enable_impl_def)

theorem allowlist_gate_witness:
  "''s2'' \<notin> set (allow (config (example_world [''s1''] Loaded)))
   \<and> enable_skill (example_env None None) (example_world [''s1''] Loaded) ''s2''
       = (Some E_SKILLS_NOT_ALLOWLISTED, example_world [''s1''] Loaded)
   \<and> enabled (snd (enable_skill (example_env None None) (example_world [''s1''] Loaded) ''s2''))
       = [''s1'']"
proof -
  have h: "''s2'' \<notin> set (allow (config (example_world [''s1''] Loaded)))"
    by (simp add: ex_defs)
  from allowlist_gate [OF h, of "example_env None None"] h show ?thesis
    by (simp add: ex_defs)
qed

text \<open>
  C5, as the code has it. When the write of the configuration fails during the
  \<open>enable\<close> command, \<open>E_SKILLS_PERSIST_FAILED\<close> is raised and the enabled set is what it
  was before the command. When it fails during the \<open>disable\<close> command,
  \<open>E_SKILLS_PERSIST_FAILED\<close> is raised in every case, and the enabled set is what it
  was before the command provided the compensating \<open>enable_skill\<close> succeeds (it is not
  needed when the skill was not enabled).
\<close>

theorem persist_atomicity:
  assumes guard: "requireKernelCapOrActorRole (guard_secret ev) (readCommandCtx xcmd) ''admin'' = Inr ()"
    and cid: "command_id xcmd = Inr skill_id"
  shows "(\<forall>st1 err st2.
            enable_skill ev st skill_id = (None, st1)
          \<and> persist_enabled_to_agent_config ev st1 = (Some err, st2)
          \<longrightarrow> fst (enable_impl ev st xcmd) = Inl E_SKILLS_PERSIST_FAILED
            \<and> set (enabled (snd (enable_impl ev st xcmd))) = set (enabled st))
       \<and> (\<forall>st1 err st2.
            disable_skill ev st skill_id = (None, st1)
          \<and> persist_enabled_to_agent_config ev st1 = (Some err, st2)
          \<longrightarrow> fst (disable_impl ev st xcmd) = Inl E_SKILLS_PERSIST_FAILED
            \<and> ((skill_id \<in> set (enabled st) \<longrightarrow> fst (enable_skill ev st2 skill_id) = None)
                \<longrightarrow> set (enabled (snd (disable_impl ev st xcmd))) = set (enabled st)))"
proof (intro conjI allI impI)
  fix st1 err st2
  assume a: "enable_skill ev st skill_id = (None, st1)
          \<and> persist_enabled_to_agent_config ev st1 = (Some err, st2)"
  then have e: "enable_skill ev st skill_id = (None, st1)"
    and p: "persist_enabled_to_agent_config ev st1 = (Some err, st2)" by auto
  from enable_skill_enabled[OF e] have e1: "set (enabled st1) = insert skill_id (set (enabled st))"
    and c1: "config st1 = config st" by auto
  from persist_frame[OF p] have e2: "enabled st2 = enabled st1" and c2: "allow (config st2) = allow (config st1)"
    by auto
  from e have "skill_id \<in> set (allow (config st))"
    by (auto simp: enable_skill_def assert_allowlisted_def split: if_splits)
  with c1 c2 have al2: "skill_id \<in> set (allow (config st2))" by simp
  from disable_skill_result[OF al2, of ev] obtain st3 where
    d: "disable_skill ev st2 skill_id = (None, st3)" and e3: "set (enabled st3) = set (enabled st2) - {skill_id}"
    by blast
  show "fst (enable_impl ev st xcmd) = Inl E_SKILLS_PERSIST_FAILED"
    using guard cid e p by (simp add: enable_impl_def)
  show "set (enabled (snd (enable_impl ev st xcmd))) = set (enabled st)"
    using guard cid e p d e1 e2 e3 by (auto simp: enable_impl_def)
next
  fix st1 err st2
  assume a: "disable_skill ev st skill_id = (None, st1)
          \<and> persist_enabled_to_agent_config ev st1 = (Some err, st2)"
  then have d: "disable_skill ev st skill_id = (None, st1)"
    and p: "persist_enabled_to_agent_config ev st1 = (Some err, st2)" by auto
  show "fst (disable_impl ev st xcmd) = Inl E_SKILLS_PERSIST_FAILED"
    using guard cid d p by (simp add: disable_impl_def)
next
  fix st1 err st2
  assume a: "disable_skill ev st skill_id = (None, st1)
          \<and> persist_enabled_to_agent_config ev st1 = (Some err, st2)"
    and re0: "skill_id \<in> set (enabled st) \<longrightarrow> fst (enable_skill ev st2 skill_id) = None"
  from a have d: "disable_skill ev st skill_id = (None, st1)"
    and p: "persist_enabled_to_agent_config ev st1 = (Some err, st2)" by auto
  from re0 have re: "skill_id \<in> set (enabled st) \<Longrightarrow> fst (enable_skill ev st2 skill_id) = None" by simp
  from disable_skill_enabled[OF d] have e1: "set (enabled st1) = set (enabled st) - {skill_id}" by simp
  from persist_frame[OF p] have e2: "enabled st2 = enabled st1" by simp
  show "set (enabled (snd (disable_impl ev st xcmd))) = set (enabled st)"
  proof (cases "skill_id \<in> set (enabled st)")
    case False
    with guard cid d p e1 e2 show ?thesis by (auto simp: disable_impl_def)
  next
    case True
    from re[OF True] obtain st3 where en: "enable_skill ev st2 skill_id = (None, st3)"
      by (cases "enable_skill ev st2 skill_id") auto
    from enable_skill_enabled[OF en] have "set (enabled st3) = insert skill_id (set (enabled st2))" by simp
    with guard cid d p e1 e2 True en show ?thesis by (auto simp: disable_impl_def)
  qed
qed

theorem persist_atomicity_witness:
  "fst (enable_impl (example_env None (Some (External ''EACCES''))) (example_world [] Disabled)
          (example_cmd ''enable'')) = Inl E_SKILLS_PERSIST_FAILED
   \<and> set (enabled (snd (enable_impl (example_env None (Some (External ''EACCES'')))
          (example_world [] Disabled) (example_cmd ''enable'')))) = {}
   \<and> fst (disable_impl (example_env None (Some (External ''EACCES''))) (example_world [''s1''] Loaded)
          (example_cmd ''disable'')) = Inl E_SKILLS_PERSIST_FAILED
   \<and> set (enabled (snd (disable_impl (example_env None (Some (External ''EACCES'')))
          (example_world [''s1''] Loaded) (example_cmd ''disable'')))) = {''s1''}"
proof -
  let ?ev = "example_env None (Some (External ''EACCES''))"
  let ?a = "example_world [] Disabled" and ?b = "example_world [''s1''] Loaded"
  have e: "enable_skill ?ev ?a ''s1'' = (None, snd (enable_skill ?ev ?a ''s1''))"
    by (simp add: prod_eq_iff ex_defs eval_defs)
  have p: "persist_enabled_to_agent_config ?ev (snd (enable_skill ?ev ?a ''s1''))
           = (Some (External ''EACCES''),
              snd (persist_enabled_to_agent_config ?ev (snd (enable_skill ?ev ?a ''s1''))))"
    by (simp add: prod_eq_iff ex_defs eval_defs)
  have d: "disable_skill ?ev ?b ''s1'' = (None, snd (disable_skill ?ev ?b ''s1''))"
    by (simp add: prod_eq_iff ex_defs eval_defs)
  have q: "persist_enabled_to_agent_config ?ev (snd (disable_skill ?ev ?b ''s1''))
           = (Some (External ''EACCES''),
              snd (persist_enabled_to_agent_config ?ev (snd (disable_skill ?ev ?b ''s1''))))"
    by (simp add: prod_eq_iff ex_defs eval_defs)
  have r: "''s1'' \<in> set (enabled ?b) \<longrightarrow>
           fst (enable_skill ?ev (snd (persist_enabled_to_agent_config ?ev
                  (snd (disable_skill ?ev ?b ''s1'')))) ''s1'') = None"
    by (simp add: ex_defs eval_defs)
  have g: "requireKernelCapOrActorRole (guard_secret ?ev) (readCommandCtx (example_cmd op)) ''admin'' = Inr ()"
    for op by (rule example_guard)
  from persist_atomicity [where ev = ?ev and st = ?a, OF g example_command_id, THEN conjunct1,
      rule_format, OF conjI [OF e p]]
    persist_atomicity [where ev = ?ev and st = ?b, OF g example_command_id, THEN conjunct2,
      rule_format, OF conjI [OF d q]] r
  show ?thesis
    by (simp add: ex_defs)
qed

text \<open>
  C5 as stated fails for the \<open>disable\<close> command: the skill \<open>s1\<close> is enabled, the write
  of the configuration fails, and the compensating \<open>enable_skill\<close> fails too (the
  dispatcher throws during its defaults bootstrap); the command swallows
  that failure, raises \<open>E_SKILLS_PERSIST_FAILED\<close>, and leaves \<open>s1\<close> out of the enabled
  set.
\<close>

theorem disable_rollback_counterexample:
  "fst (disable_impl (example_env (Some (External ''storage unavailable'')) (Some (External ''EACCES'')))
          (example_world [''s1''] Loaded) (example_cmd ''disable'')) = Inl E_SKILLS_PERSIST_FAILED
   \<and> enabled (snd (disable_impl (example_env (Some (External ''storage unavailable''))
          (Some (External ''EACCES''))) (example_world [''s1''] Loaded) (example_cmd ''disable''))) = []
   \<and> enabled (example_world [''s1''] Loaded) = [''s1'']"
  by (simp add: disable_impl_def ex_defs eval_defs)

subsection \<open>Module ownership\<close>

lemma ownership_inv_cong:
  "allow (config st') = allow (config st) \<Longrightarrow> module_to_skill st' = module_to_skill st \<Longrightarrow>
   skill_to_modules st' = skill_to_modules st \<Longrightarrow> ownership_inv st' = ownership_inv st"
  by (simp add: ownership_inv_def modules_of_def)

lemma ensure_non_empty_string_Inr:
  "ensure_non_empty_string err v = Inr x \<Longrightarrow> is_trimmed x \<and> (\<exists>raw. v = Some (JStr raw) \<and> x = trim raw)"
  by (cases "(err, v)" rule: ensure_non_empty_string.cases) (auto simp: is_trimmed_trim split: if_splits)

lemma truthy_id_iff: "truthy_id x \<longleftrightarrow> (\<exists>s. x = Some s \<and> s \<noteq> [])"
  by (cases x) auto

lemma ownership_invD:
  assumes "ownership_inv st"
  shows "[] \<notin> set (allow (config st))"
    and "module_to_skill st m = Some s \<Longrightarrow> s \<noteq> []"
    and "module_to_skill st m = Some s \<Longrightarrow> is_trimmed m"
    and "module_to_skill st m = Some s \<Longrightarrow> m \<in> set (modules_of st s)"
    and "m \<in> set (modules_of st s) \<Longrightarrow> module_to_skill st m = Some s"
  using assms unfolding ownership_inv_def by blast+

lemma registerModule_Inr:
  assumes "ctx_registerModule skill_id st inst al = Inr st'"
  shows "\<exists>name. ensure_non_empty_string E_SKILLS_BAD_PARAMS (nullish_or (own_name inst) (ctor_name inst)) = Inr name
      \<and> (module_to_skill st name = None \<or> module_to_skill st name = Some [] \<or> module_to_skill st name = Some skill_id)
      \<and> st' = st\<lparr> skill_to_modules := (skill_to_modules st)(skill_id \<mapsto> set_add name (modules_of st skill_id)),
                   module_to_skill := (module_to_skill st)(name \<mapsto> skill_id) \<rparr>"
proof -
  from assms have obj: "is_object inst"
    by (simp add: ctx_registerModule_def split: if_splits)
  from assms obj obtain name where
    name: "ensure_non_empty_string E_SKILLS_BAD_PARAMS (nullish_or (own_name inst) (ctor_name inst)) = Inr name"
    by (cases "ensure_non_empty_string E_SKILLS_BAD_PARAMS (nullish_or (own_name inst) (ctor_name inst))")
       (simp_all add: ctx_registerModule_def)
  from assms obj name have ok: "\<not> (truthy_id (module_to_skill st name) \<and> module_to_skill st name \<noteq> Some skill_id)"
    by (simp add: ctx_registerModule_def Let_def split: if_splits)
  from assms obj name ok have st': "st' = st\<lparr> skill_to_modules := (skill_to_modules st)(skill_id \<mapsto> set_add name (modules_of st skill_id)),
                   module_to_skill := (module_to_skill st)(name \<mapsto> skill_id) \<rparr>"
    by (simp add: ctx_registerModule_def Let_def modules_of_def split: if_splits)
  from ok have "module_to_skill st name = None \<or> module_to_skill st name = Some [] \<or> module_to_skill st name = Some skill_id"
    by (cases "module_to_skill st name") auto
  with name st' show ?thesis by blast
qed

lemma registerModule_inv:
  assumes inv: "ownership_inv st" and id: "skill_id \<noteq> []"
    and reg: "ctx_registerModule skill_id st inst al = Inr st'"
  shows "ownership_inv st'"
proof -
  from registerModule_Inr[OF reg] obtain name where
    name: "ensure_non_empty_string E_SKILLS_BAD_PARAMS (nullish_or (own_name inst) (ctor_name inst)) = Inr name"
    and ok: "module_to_skill st name = None \<or> module_to_skill st name = Some [] \<or> module_to_skill st name = Some skill_id"
    and st': "st' = st\<lparr> skill_to_modules := (skill_to_modules st)(skill_id \<mapsto> set_add name (modules_of st skill_id)),
                       module_to_skill := (module_to_skill st)(name \<mapsto> skill_id) \<rparr>"
    by blast
  from ensure_non_empty_string_Inr[OF name] have nm: "is_trimmed name" by simp
  note i = ownership_invD[OF inv]
  have other: "s = skill_id" if "module_to_skill st name = Some s" for s
    using ok that i(2)[of name s] by auto
  have mo: "modules_of st' s = (if s = skill_id then set_add name (modules_of st skill_id) else modules_of st s)" for s
    by (simp add: st' modules_of_def)
  have m2s: "module_to_skill st' m = (if m = name then Some skill_id else module_to_skill st m)" for m
    by (simp add: st')
  have cfg: "config st' = config st" by (simp add: st')
  show ?thesis
    unfolding ownership_inv_def
  proof (intro conjI allI impI)
    show "[] \<notin> set (allow (config st'))" using i(1) cfg by simp
  next
    fix m s assume a: "module_to_skill st' m = Some s"
    show "s \<noteq> []"
    proof (cases "m = name")
      case True with a id show ?thesis by (simp add: m2s)
    next
      case False with a i(2)[of m s] show ?thesis by (simp add: m2s)
    qed
    show "is_trimmed m"
    proof (cases "m = name")
      case True with nm show ?thesis by simp
    next
      case False with a i(3)[of m s] show ?thesis by (simp add: m2s)
    qed
    show "m \<in> set (modules_of st' s)"
    proof (cases "m = name")
      case True with a show ?thesis by (simp add: m2s mo)
    next
      case False
      with a have "module_to_skill st m = Some s" by (simp add: m2s)
      from i(4)[OF this] show ?thesis by (auto simp: mo)
    qed
  next
    fix s m assume a: "m \<in> set (modules_of st' s)"
    show "module_to_skill st' m = Some s"
    proof (cases "s = skill_id")
      case True
      show ?thesis
      proof (cases "m = name")
        case m: True with True show ?thesis by (simp add: m2s)
      next
        case m: False
        with a True have "m \<in> set (modules_of st skill_id)" by (simp add: mo)
        from i(5)[OF this] m True show ?thesis by (simp add: m2s)
      qed
    next
      case False
      with a have old: "m \<in> set (modules_of st s)" by (simp add: mo)
      from i(5)[OF old] have ms: "module_to_skill st m = Some s" .
      with other False have "m \<noteq> name" by auto
      with ms show ?thesis by (simp add: m2s)
    qed
  qed
qed

lemma run_registers_inv:
  "ownership_inv st \<Longrightarrow> skill_id \<noteq> [] \<Longrightarrow> ownership_inv (snd (run_registers skill_id st rs))"
proof (induction rs arbitrary: st)
  case Nil
  then show ?case by simp
next
  case (Cons a rs)
  obtain inst al where a: "a = (inst, al)" by (cases a)
  show ?case
  proof (cases "ctx_registerModule skill_id st inst al")
    case (Inl e)
    with Cons.prems a show ?thesis by simp
  next
    case (Inr st1)
    from registerModule_inv[OF Cons.prems(1,2) Inr] have "ownership_inv st1" .
    from Cons.IH[OF this Cons.prems(2)] a Inr show ?thesis by simp
  qed
qed

lemma run_hook_inv:
  "ownership_inv st \<Longrightarrow> skill_id \<noteq> [] \<Longrightarrow> ownership_inv (snd (run_hook skill_id st hook))"
  using run_registers_inv[of st skill_id "registers hook"]
  by (auto simp: run_hook_def split: prod.splits option.splits)

lemma ownership_inv_updates [simp]:
  "ownership_inv (st\<lparr> enabled := a \<rparr>) = ownership_inv st"
  "ownership_inv (st\<lparr> activating := b \<rparr>) = ownership_inv st"
  "ownership_inv (st\<lparr> loaded := c \<rparr>) = ownership_inv st"
  "ownership_inv (st\<lparr> runtime_by_skill := d \<rparr>) = ownership_inv st"
  "ownership_inv (st\<lparr> settings_meta_by_skill := e \<rparr>) = ownership_inv st"
  "ownership_inv (st\<lparr> config_file := f \<rparr>) = ownership_inv st"
  "ownership_inv (st\<lparr> settings_store := g \<rparr>) = ownership_inv st"
  by (simp_all add: ownership_inv_def modules_of_def)

lemma ownership_inv_config_same:
  "allow c = allow (config st) \<Longrightarrow> ownership_inv (st\<lparr> config := c \<rparr>) = ownership_inv st"
  by (simp add: ownership_inv_def modules_of_def)

lemma ownership_inv_config:
  assumes "ownership_inv st" and "[] \<notin> set (allow c)"
  shows "ownership_inv (st\<lparr> config := c \<rparr>)"
proof -
  have m: "modules_of (st\<lparr> config := c \<rparr>) = modules_of st"
    by (simp add: modules_of_def fun_eq_iff)
  have f: "module_to_skill (st\<lparr> config := c \<rparr>) = module_to_skill st"
    "config (st\<lparr> config := c \<rparr>) = c" by simp_all
  from assms(1) have a: "(\<forall>m s. module_to_skill st m = Some s \<longrightarrow>
             s \<noteq> [] \<and> is_trimmed m \<and> m \<in> set (modules_of st s))
      \<and> (\<forall>s m. m \<in> set (modules_of st s) \<longrightarrow> module_to_skill st m = Some s)"
    unfolding ownership_inv_def by blast
  show ?thesis
    unfolding ownership_inv_def m f using a assms(2) by blast
qed

lemma call_module_hooks_inv [simp]:
  "ownership_inv (call_module_hooks ev st skill_id op) = ownership_inv st"
  by (rule ownership_inv_cong) simp_all

lemma bootstrap_inv:
  "ownership_inv (snd (bootstrap_skill_settings_defaults ev st skill_id meta)) = ownership_inv st"
proof -
  obtain r st' where b: "bootstrap_skill_settings_defaults ev st skill_id meta = (r, st')"
    by (cases "bootstrap_skill_settings_defaults ev st skill_id meta")
  from bootstrap_frame [OF b] obtain s where "st' = st\<lparr> settings_store := s \<rparr>" by blast
  with b show ?thesis by simp
qed

lemma set_error_state_inv [simp]:
  "ownership_inv (set_error_state ev st skill_id msg src) = ownership_inv st"
  by (simp add: set_error_state_def Let_def)

lemma enable_body_inv:
  assumes inv: "ownership_inv st" and id: "skill_id \<noteq> []"
  shows "ownership_inv (snd (enable_body ev st skill_id descriptor src))"
proof (cases "clone_settings_meta (d_settings_meta descriptor)")
  case (Inl e)
  with inv show ?thesis by (simp add: enable_body_def Let_def)
next
  case (Inr cloned)
  let ?st2 = "st\<lparr> activating := set_add skill_id (activating st),
      settings_meta_by_skill := (settings_meta_by_skill st)(skill_id \<mapsto> cloned) \<rparr>"
  have inv2: "ownership_inv ?st2" using inv by simp
  obtain rb st3 where b: "bootstrap_skill_settings_defaults ev ?st2 skill_id (d_settings_meta descriptor) = (rb, st3)"
    by (cases "bootstrap_skill_settings_defaults ev ?st2 skill_id (d_settings_meta descriptor)")
  from bootstrap_inv [of ev ?st2 skill_id "d_settings_meta descriptor"] b inv2
  have inv3: "ownership_inv st3" by simp
  show ?thesis
  proof (cases rb)
    case (Some e)
    with Inr b inv3 show ?thesis by (simp add: enable_body_def Let_def)
  next
    case None
    obtain r st4 where h: "run_hook skill_id st3 (d_on_enable descriptor) = (r, st4)"
      by (cases "run_hook skill_id st3 (d_on_enable descriptor)")
    from run_hook_inv[OF inv3 id, of "d_on_enable descriptor"] h have inv4: "ownership_inv st4" by simp
    show ?thesis
      using Inr b None h inv4 by (cases r) (simp_all add: enable_body_def Let_def)
  qed
qed

lemma enable_skill_inv:
  assumes inv: "ownership_inv st"
  shows "ownership_inv (snd (enable_skill ev st skill_id))"
proof (cases "skill_id \<in> set (allow (config st))")
  case False
  with inv show ?thesis by (simp add: enable_skill_def assert_allowlisted_def)
next
  case True
  with ownership_invD(1)[OF inv] have id: "skill_id \<noteq> []" by auto
  from True have al: "assert_allowlisted st skill_id = Inr ()" by (simp add: assert_allowlisted_def)
  show ?thesis
  proof (cases "has_status st skill_id Loaded \<and> skill_id \<in> set (enabled st)")
    case True
    with al inv show ?thesis by (auto simp: enable_skill_def)
  next
    case nl: False
    show ?thesis
    proof (cases "has_status st skill_id Disabled \<and> runtime_by_skill st skill_id \<noteq> None")
      case fast: True
      obtain rb st1 where b: "bootstrap_skill_settings_defaults ev st skill_id (settings_meta_by_skill st skill_id) = (rb, st1)"
        by (cases "bootstrap_skill_settings_defaults ev st skill_id (settings_meta_by_skill st skill_id)")
      from bootstrap_inv [of ev st skill_id "settings_meta_by_skill st skill_id"] b inv
      have "ownership_inv st1" by simp
      with al nl fast b inv show ?thesis
        by (cases rb) (auto simp: enable_skill_def Let_def)
    next
      case full: False
      show ?thesis
      proof (cases "load_skill ev skill_id")
        case (Inl e)
        with al nl full inv show ?thesis by (auto simp: enable_skill_def)
      next
        case (Inr p)
        obtain descriptor src where p: "p = (descriptor, src)" by (cases p)
        obtain r st' where eb: "enable_body ev st skill_id descriptor src = (r, st')"
          by (cases "enable_body ev st skill_id descriptor src")
        from enable_body_inv[OF inv id, of ev descriptor src] eb have "ownership_inv st'" by simp
        with al nl full Inr p eb show ?thesis
          by (cases r) (auto simp: enable_skill_def Let_def)
      qed
    qed
  qed
qed

lemma disable_skill_inv:
  assumes inv: "ownership_inv st"
  shows "ownership_inv (snd (disable_skill ev st skill_id))"
proof (cases "skill_id \<in> set (allow (config st))")
  case False
  with inv show ?thesis by (simp add: disable_skill_def assert_allowlisted_def)
next
  case True
  with ownership_invD(1)[OF inv] have id: "skill_id \<noteq> []" by auto
  let ?st1 = "st\<lparr> enabled := set_delete skill_id (enabled st) \<rparr>"
  have inv1: "ownership_inv ?st1" using inv by simp
  have hook: "ownership_inv (snd (run_hook skill_id ?st1 h))" for h
    by (rule run_hook_inv[OF inv1 id])
  show ?thesis
    using True inv1 hook
    by (simp add: disable_skill_def assert_allowlisted_def Let_def
        split: option.splits)
qed

lemma persist_inv:
  "ownership_inv st \<Longrightarrow> ownership_inv (snd (persist_enabled_to_agent_config ev st))"
  by (simp add: persist_enabled_to_agent_config_def Let_def ownership_inv_config_same
      split: file_state.splits option.splits)

lemma enable_impl_inv:
  assumes inv: "ownership_inv st"
  shows "ownership_inv (snd (enable_impl ev st xcmd))"
proof -
  have e: "ownership_inv (snd (enable_skill ev st i))" for i by (rule enable_skill_inv[OF inv])
  have p: "ownership_inv (snd (persist_enabled_to_agent_config ev (snd (enable_skill ev st i))))" for i
    by (rule persist_inv[OF e])
  have d: "ownership_inv (snd (disable_skill ev (snd (persist_enabled_to_agent_config ev (snd (enable_skill ev st i)))) i))" for i
    by (rule disable_skill_inv[OF p])
  show ?thesis
    using inv e p d
    by (auto simp: enable_impl_def Let_def split: sum.splits prod.splits option.splits)
       (metis snd_conv)+
qed

lemma disable_impl_inv:
  assumes inv: "ownership_inv st"
  shows "ownership_inv (snd (disable_impl ev st xcmd))"
proof -
  have e: "ownership_inv (snd (disable_skill ev st i))" for i by (rule disable_skill_inv[OF inv])
  have p: "ownership_inv (snd (persist_enabled_to_agent_config ev (snd (disable_skill ev st i))))" for i
    by (rule persist_inv[OF e])
  have d: "ownership_inv (snd (enable_skill ev (snd (persist_enabled_to_agent_config ev (snd (disable_skill ev st i)))) i))" for i
    by (rule enable_skill_inv[OF p])
  show ?thesis
    using inv e p d
    by (auto simp: disable_impl_def Let_def split: sum.splits prod.splits option.splits)
       (metis snd_conv)+
qed

lemma read_agent_config_allow:
  "read_agent_config st = Inr cfg \<Longrightarrow> [] \<notin> set (allow cfg)"
  by (auto simp: read_agent_config_def Let_def normalize_string_array_nonempty
      split: file_state.splits if_splits)

lemma reload_disable_inv:
  "ownership_inv st \<Longrightarrow> ownership_inv (snd (reload_disable ev st target ids))"
proof (induction ids arbitrary: st)
  case Nil
  then show ?case by simp
next
  case (Cons i ids)
  obtain r st' where d: "disable_skill ev st i = (r, st')" by (cases "disable_skill ev st i")
  from disable_skill_inv[OF Cons.prems, of ev i] d have "ownership_inv st'" by simp
  with Cons d show ?case by (cases r) auto
qed

lemma reload_enable_inv:
  "ownership_inv st \<Longrightarrow> ownership_inv (reload_enable ev st ids)"
proof (induction ids arbitrary: st)
  case Nil
  then show ?case by simp
next
  case (Cons i ids)
  obtain r st' where e: "enable_skill ev st i = (r, st')" by (cases "enable_skill ev st i")
  from enable_skill_inv[OF Cons.prems, of ev i] e have "ownership_inv st'" by simp
  with Cons e show ?case by (cases r) auto
qed

lemma reload_enabled_impl_inv:
  assumes inv: "ownership_inv st"
  shows "ownership_inv (snd (reload_enabled_impl ev st xcmd))"
proof (cases "requireKernelCap (guard_secret ev) (readCommandCtx xcmd)")
  case (Inl e)
  with inv show ?thesis by (simp add: reload_enabled_impl_def)
next
  case g: (Inr u)
  show ?thesis
  proof (cases "read_agent_config st")
    case (Inl e)
    with g inv show ?thesis by (simp add: reload_enabled_impl_def)
  next
    case (Inr cfg)
    from read_agent_config_allow[OF Inr] inv have inv1: "ownership_inv (st\<lparr> config := cfg \<rparr>)"
      by (rule ownership_inv_config[rotated])
    obtain r st2 where rd: "reload_disable ev (st\<lparr> config := cfg \<rparr>) (cfg_enabled cfg) (enabled st) = (r, st2)"
      by (cases "reload_disable ev (st\<lparr> config := cfg \<rparr>) (cfg_enabled cfg) (enabled st)")
    from reload_disable_inv[OF inv1, of ev "cfg_enabled cfg" "enabled st"] rd have inv2: "ownership_inv st2" by simp
    from reload_enable_inv[OF inv2] g Inr rd inv2 show ?thesis
      by (cases r) (simp_all add: reload_enabled_impl_def Let_def)
  qed
qed

lemma reachable_inv: "reachable st \<Longrightarrow> ownership_inv st"
proof (induction rule: reachable.induct)
  case (init cap cfile store)
  show ?case
    by (simp add: ownership_inv_def initial_world_def DEFAULT_AGENT_CONFIG_def modules_of_def)
next
  case (register st skill_id inst already_loaded st')
  then show ?case by (auto intro: registerModule_inv)
qed (simp_all add: enable_impl_inv disable_impl_inv reload_enabled_impl_inv)

text \<open>
  C6. In every reachable state a module name is among the modules of at most one skill;
  \<open>registerModule\<close> by a skill for a module whose name, trimmed as the call trims it,
  another skill owns fails with \<open>E_SKILLS_MODULE_CONFLICT\<close>; \<open>registerModule\<close> for a
  module that the module registry already has and whose trimmed name no skill owns
  fails with \<open>E_SKILLS_MODULE_CONFLICT\<close>; and every owned name is kept trimmed and is
  not empty.
\<close>

theorem ownership_exclusive:
  assumes "reachable st"
  shows "(\<forall>s1 s2 m. m \<in> set (modules_of st s1) \<and> m \<in> set (modules_of st s2) \<longrightarrow> s1 = s2)
       \<and> (\<forall>skill_id other (inst :: module_instance) already_loaded n.
             trim n \<in> set (modules_of st other) \<and> other \<noteq> skill_id \<and> is_object inst
             \<and> nullish_or (own_name inst) (ctor_name inst) = Some (JStr n)
             \<longrightarrow> ctx_registerModule skill_id st inst already_loaded = Inl E_SKILLS_MODULE_CONFLICT)
       \<and> (\<forall>skill_id (inst :: module_instance) n.
             is_object inst \<and> nullish_or (own_name inst) (ctor_name inst) = Some (JStr n)
             \<and> trim n \<noteq> [] \<and> (\<forall>s. trim n \<notin> set (modules_of st s))
             \<longrightarrow> ctx_registerModule skill_id st inst True = Inl E_SKILLS_MODULE_CONFLICT)
       \<and> (\<forall>s m. m \<in> set (modules_of st s) \<longrightarrow> trim m = m \<and> m \<noteq> [])"
proof -
  note i = ownership_invD[OF reachable_inv[OF assms]]
  show ?thesis
  proof (intro conjI allI impI)
    fix s1 s2 m assume "m \<in> set (modules_of st s1) \<and> m \<in> set (modules_of st s2)"
    then have "module_to_skill st m = Some s1" "module_to_skill st m = Some s2"
      using i(5) by auto
    then show "s1 = s2" by simp
  next
    fix skill_id other and inst :: module_instance and already_loaded n
    assume a: "trim n \<in> set (modules_of st other) \<and> other \<noteq> skill_id \<and> is_object inst
             \<and> nullish_or (own_name inst) (ctor_name inst) = Some (JStr n)"
    then have owner: "module_to_skill st (trim n) = Some other" using i(5) by auto
    from i(2)[OF owner] have ne: "other \<noteq> []" .
    from i(3)[OF owner] have tr: "trim n \<noteq> []" by (auto simp: is_trimmed_def)
    show "ctx_registerModule skill_id st inst already_loaded = Inl E_SKILLS_MODULE_CONFLICT"
      using a owner ne tr by (auto simp: ctx_registerModule_def Let_def)
  next
    fix skill_id and inst :: module_instance and n
    assume a: "is_object inst \<and> nullish_or (own_name inst) (ctor_name inst) = Some (JStr n)
             \<and> trim n \<noteq> [] \<and> (\<forall>s. trim n \<notin> set (modules_of st s))"
    have "module_to_skill st (trim n) = None"
    proof (cases "module_to_skill st (trim n)")
      case (Some s)
      from i(4)[OF Some] a show ?thesis by auto
    qed simp
    with a show "ctx_registerModule skill_id st inst True = Inl E_SKILLS_MODULE_CONFLICT"
      by (auto simp: ctx_registerModule_def Let_def)
  next
    fix s m assume "m \<in> set (modules_of st s)"
    then have "module_to_skill st m = Some s" using i(5) by simp
    from i(3)[OF this] show "trim m = m" and "m \<noteq> []" by (simp_all add: is_trimmed_def)
  qed
qed

theorem ownership_exclusive_witness:
  "reachable ((initial_world ''kcap_0123456789abcdef'' Missing [])
       \<lparr> skill_to_modules := [''s1'' \<mapsto> [''echo'']], module_to_skill := [''echo'' \<mapsto> ''s1''] \<rparr>)
   \<and> ctx_registerModule ''s2''
        ((initial_world ''kcap_0123456789abcdef'' Missing [])
           \<lparr> skill_to_modules := [''s1'' \<mapsto> [''echo'']], module_to_skill := [''echo'' \<mapsto> ''s1''] \<rparr>)
        \<lparr> is_object = True, own_name = Some (JStr ''echo''), ctor_name = None \<rparr> False
      = Inl E_SKILLS_MODULE_CONFLICT
   \<and> ctx_registerModule ''s2''
        ((initial_world ''kcap_0123456789abcdef'' Missing [])
           \<lparr> skill_to_modules := [''s1'' \<mapsto> [''echo'']], module_to_skill := [''echo'' \<mapsto> ''s1''] \<rparr>)
        \<lparr> is_object = True, own_name = None, ctor_name = Some (JStr ''channels'') \<rparr> True
      = Inl E_SKILLS_MODULE_CONFLICT"
proof -
  let ?w = "(initial_world ''kcap_0123456789abcdef'' Missing [])
       \<lparr> skill_to_modules := [''s1'' \<mapsto> [''echo'']], module_to_skill := [''echo'' \<mapsto> ''s1''] \<rparr>"
  have step: "ctx_registerModule ''s1'' (initial_world ''kcap_0123456789abcdef'' Missing [])
                \<lparr> is_object = True, own_name = Some (JStr ''echo''), ctor_name = None \<rparr> False = Inr ?w"
    by (simp add: ctx_registerModule_def initial_world_def trim_eval set_add_def)
  have r: "reachable ?w"
    by (rule reachable.register [OF reachable.init _ step]) simp
  have owned: "trim ''echo'' \<in> set (modules_of ?w ''s1'') \<and> ''s1'' \<noteq> ''s2''
      \<and> is_object \<lparr> is_object = True, own_name = Some (JStr ''echo''), ctor_name = None \<rparr>
      \<and> nullish_or (own_name \<lparr> is_object = True, own_name = Some (JStr ''echo''), ctor_name = None \<rparr>)
            (ctor_name \<lparr> is_object = True, own_name = Some (JStr ''echo''), ctor_name = None \<rparr>)
          = Some (JStr ''echo'')"
    by (simp add: modules_of_def initial_world_def trim_eval)
  have unowned: "is_object \<lparr> is_object = True, own_name = None, ctor_name = Some (JStr ''channels'') \<rparr>
      \<and> nullish_or (own_name \<lparr> is_object = True, own_name = None, ctor_name = Some (JStr ''channels'') \<rparr>)
            (ctor_name \<lparr> is_object = True, own_name = None, ctor_name = Some (JStr ''channels'') \<rparr>)
          = Some (JStr ''channels'')
      \<and> trim ''channels'' \<noteq> [] \<and> (\<forall>s. trim ''channels'' \<notin> set (modules_of ?w s))"
    by (simp add: modules_of_def initial_world_def trim_eval)
  from ownership_exclusive [OF r, THEN conjunct2, THEN conjunct1, rule_format, OF owned]
    ownership_exclusive [OF r, THEN conjunct2, THEN conjunct2, THEN conjunct1, rule_format, OF unowned] r
  show ?thesis by simp
qed

end
